theory Spec2Isabelle
  imports Complex_Main "HOL-Library.Sublist"
begin

section \<open>Values shared by the gateway and the lesson views\<close>

text \<open>
  JavaScript strings are modelled as \<open>string\<close> holding the UTF-8 bytes of the text; the
  Turkish letters of the source's literals are therefore written as their bytes. The only
  string test of the source is \<open>includes\<close> with an ASCII needle, which gives the same
  answer on UTF-8 bytes as on UTF-16 code units.
\<close>

text \<open>\<open>String.prototype.includes\<close>: the needle occurs as a contiguous part.\<close>

fun str_includes :: "string \<Rightarrow> string \<Rightarrow> bool" where
  "str_includes [] sub = (sub = [])"
| "str_includes (c # cs) sub = (prefix sub (c # cs) \<or> str_includes cs sub)"

text \<open>The interface \<open>InteractiveQuestion\<close> of both views (field \<open>id\<close> is \<open>id_q\<close> here).\<close>

record InteractiveQuestion =
  id_q :: string
  timestamp :: real
  question :: string
  options :: "string list"
  correctAnswer :: string

subsection \<open>Numbers\<close>

text \<open>
  A JavaScript number is an IEEE 754 binary64 value; a finite one is modelled as the real
  it denotes. Comparisons, \<open>Math.abs\<close> and \<open>Math.floor\<close> of finite numbers are exact. A
  subtraction gives the double nearest to the exact difference, ties going to the even
  significand: \<open>double_round\<close>, with \<open>None\<close> for an infinite result.

  \<open>binade n x\<close> looks for the exponent \<open>e\<close> with \<open>2^e \<le> x < 2^(e+1)\<close> in at most \<open>n\<close>
  steps; 1100 steps reach every exponent of a finite double, and beyond them the result
  is zero or infinite whatever the exponent. Below \<open>2^-1022\<close> the spacing of the doubles
  stays that of the subnormals, \<open>2^-1074\<close>.
\<close>

fun binade :: "nat \<Rightarrow> real \<Rightarrow> int" where
  "binade 0 x = 0"
| "binade (Suc n) x =
     (if 2 \<le> x then binade n (x / 2) + 1
      else if x < 1 then binade n (x * 2) - 1
      else 0)"

definition round_half_even :: "real \<Rightarrow> int" where
  "round_half_even y =
     (let f = \<lfloor>y\<rfloor>
      in if y - of_int f < 1 / 2 then f
         else if 1 / 2 < y - of_int f then f + 1
         else if even f then f else f + 1)"

definition double_round :: "real \<Rightarrow> real option" where
  "double_round x =
     (if x = 0 then Some 0
      else
        (let a = \<bar>x\<bar>;
             e = max (binade 1100 a) (- 1022);
             u = 2 powi (e - 52);
             v = of_int (round_half_even (a / u)) * u
         in if 2 ^ 1024 \<le> v then None else Some (sgn x * v)))"

section \<open>The AI gateway (lib/gemini)\<close>

subsection \<open>Errors, settled promises, the retry wrapper\<close>

text \<open>
  A thrown value is an error object whose \<open>message\<close> may be absent
  (\<open>error.message?.includes(...)\<close> is then falsy).
\<close>

datatype js_error = Error (message: "string option")

definition message_includes :: "js_error \<Rightarrow> string \<Rightarrow> bool" where
  "message_includes error sub =
     (case message error of None \<Rightarrow> False | Some m \<Rightarrow> str_includes m sub)"

text \<open>How an awaited promise settles.\<close>

datatype 'a settled = Resolved 'a | Rejected js_error

text \<open>A value that may be JavaScript's \<open>undefined\<close>.\<close>

datatype 'a or_undefined = Defined 'a | Undefined

text \<open>What \<open>retryWithBackoff\<close> does besides settling: calls of \<open>fn\<close> and timer waits (ms).\<close>

datatype retry_event = Call nat | Wait nat

definition RATE_LIMIT_DELAY :: nat where
  "RATE_LIMIT_DELAY = 1000"

definition maxRetries_default :: nat where
  "maxRetries_default = 3"

text \<open>
  \<open>retryWithBackoff\<close>: the unit of work \<open>fn\<close> is impure, so the model receives the outcome
  of each of its calls, \<open>fn i\<close> for the call made in iteration \<open>i\<close>. \<open>retry_loop\<close> is the
  \<open>for\<close> loop from iteration \<open>i\<close> on; leaving the loop returns \<open>undefined\<close>.
\<close>

function retry_loop ::
  "(nat \<Rightarrow> 'a settled) \<Rightarrow> nat \<Rightarrow> nat \<Rightarrow> 'a or_undefined settled \<times> retry_event list" where
  "retry_loop fn maxRetries i =
     (if i < maxRetries then
        (case fn i of
           Resolved v \<Rightarrow> (Resolved (Defined v), [Call i])
         | Rejected error \<Rightarrow>
             if message_includes error ''429'' \<and> i < maxRetries - 1
             then apsnd (\<lambda>evs. Call i # Wait (2 ^ i * 1000) # evs)
                    (retry_loop fn maxRetries (i + 1))
             else (Rejected error, [Call i]))
      else (Resolved Undefined, []))"
  by pat_completeness auto
termination
  by (relation "measure (\<lambda>(fn, maxRetries, i). maxRetries - i)") auto

definition retryWithBackoff ::
  "(nat \<Rightarrow> 'a settled) \<Rightarrow> nat \<Rightarrow> 'a or_undefined settled \<times> retry_event list" where
  "retryWithBackoff fn maxRetries = retry_loop fn maxRetries 0"

text \<open>Readings of a run: the number of attempts and the waits between them.\<close>

fun attempts :: "retry_event list \<Rightarrow> nat" where
  "attempts [] = 0"
| "attempts (Call i # evs) = Suc (attempts evs)"
| "attempts (Wait ms # evs) = attempts evs"

fun waits :: "retry_event list \<Rightarrow> nat list" where
  "waits [] = []"
| "waits (Call i # evs) = waits evs"
| "waits (Wait ms # evs) = ms # waits evs"

text \<open>An attempt that failed with an error classified as rate-limited.\<close>

definition rate_limited :: "'a settled \<Rightarrow> bool" where
  "rate_limited r = (case r of Resolved v \<Rightarrow> False | Rejected e \<Rightarrow> message_includes e ''429'')"

text \<open>The run that makes the calls \<open>i, ..., k\<close> with a backoff wait after each but the last.\<close>

fun backoff_trace :: "nat \<Rightarrow> nat \<Rightarrow> retry_event list" where
  "backoff_trace i 0 = [Call i]"
| "backoff_trace i (Suc n) = Call i # Wait (2 ^ i * 1000) # backoff_trace (Suc i) n"

definition settle_defined :: "'a settled \<Rightarrow> 'a or_undefined settled" where
  "settle_defined r = (case r of Resolved v \<Rightarrow> Resolved (Defined v) | Rejected e \<Rightarrow> Rejected e)"

subsection \<open>Offline fallback texts\<close>

text \<open>The parameter type \<open>'chat' | 'question' | 'explanation' | 'image'\<close>.\<close>

datatype offline_type = Chat | Question | Explanation | Image

text \<open>\<open>getOfflineResponse\<close>; its \<open>default\<close> branch has no value of the parameter type.\<close>

fun getOfflineResponse :: "offline_type \<Rightarrow> string" where
  "getOfflineResponse Chat =
     ''Merhaba! '' @ [CHR 0xC5, CHR 0x9E] @ ''u anda API kullan'' @ [CHR 0xC4, CHR 0xB1] @
     ''m limitimiz dolmu'' @ [CHR 0xC5, CHR 0x9F] @ '' durumda. L'' @ [CHR 0xC3, CHR 0xBC] @
     ''tfen birka'' @ [CHR 0xC3, CHR 0xA7] @ '' dakika bekleyip tekrar deneyin. Bu s'' @
     [CHR 0xC3, CHR 0xBC] @ ''re zarf'' @ [CHR 0xC4, CHR 0xB1] @ ''nda size yard'' @
     [CHR 0xC4, CHR 0xB1] @ ''mc'' @ [CHR 0xC4, CHR 0xB1] @ '' olabilece'' @
     [CHR 0xC4, CHR 0x9F] @ ''im ba'' @ [CHR 0xC5, CHR 0x9F] @ ''ka konular hakk'' @
     [CHR 0xC4, CHR 0xB1] @ ''nda sorular sorabilirsiniz.''"
| "getOfflineResponse Question =
     ''Bu konu hakk'' @ [CHR 0xC4, CHR 0xB1] @ ''nda temel sorular olu'' @
     [CHR 0xC5, CHR 0x9F] @ ''turmak i'' @ [CHR 0xC3, CHR 0xA7] @ ''in API'' @ [CHR 0x27] @
     ''ye ihtiyac'' @ [CHR 0xC4, CHR 0xB1] @ ''m var. '' @ [CHR 0xC5, CHR 0x9E] @
     ''u anda kullan'' @ [CHR 0xC4, CHR 0xB1] @ ''m limitimiz dolmu'' @
     [CHR 0xC5, CHR 0x9F] @ '' durumda. L'' @ [CHR 0xC3, CHR 0xBC] @
     ''tfen daha sonra tekrar deneyin.''"
| "getOfflineResponse Explanation =
     ''Bu soru hakk'' @ [CHR 0xC4, CHR 0xB1] @ ''nda detayl'' @ [CHR 0xC4, CHR 0xB1] @
     '' a'' @ [CHR 0xC3, CHR 0xA7, CHR 0xC4, CHR 0xB1] @ ''klama yapmak i'' @
     [CHR 0xC3, CHR 0xA7] @ ''in API'' @ [CHR 0x27] @ ''ye ihtiyac'' @
     [CHR 0xC4, CHR 0xB1] @ ''m var. '' @ [CHR 0xC5, CHR 0x9E] @ ''u anda kullan'' @
     [CHR 0xC4, CHR 0xB1] @ ''m limitimiz dolmu'' @ [CHR 0xC5, CHR 0x9F] @ '' durumda. L'' @
     [CHR 0xC3, CHR 0xBC] @ ''tfen daha sonra tekrar deneyin.''"
| "getOfflineResponse Image =
     ''Bu resmi analiz etmek i'' @ [CHR 0xC3, CHR 0xA7] @ ''in API'' @ [CHR 0x27] @
     ''ye ihtiyac'' @ [CHR 0xC4, CHR 0xB1] @ ''m var. '' @ [CHR 0xC5, CHR 0x9E] @
     ''u anda kullan'' @ [CHR 0xC4, CHR 0xB1] @ ''m limitimiz dolmu'' @
     [CHR 0xC5, CHR 0x9F] @ '' durumda. L'' @ [CHR 0xC3, CHR 0xBC] @
     ''tfen daha sonra tekrar deneyin.''"

text \<open>The template literal that \<open>generateAIExplanation\<close> resolves with on other errors.\<close>

definition explanation_fallback :: "string \<Rightarrow> string \<Rightarrow> string" where
  "explanation_fallback user_answer correct_answer =
     ''Bu soruda '' @ user_answer @
     '' cevab'' @ [CHR 0xC4, CHR 0xB1] @ ''n'' @ [CHR 0xC4, CHR 0xB1] @
     '' verdin, ancak do'' @ [CHR 0xC4, CHR 0x9F] @ ''ru cevap '' @ correct_answer @
     ''. '' @ [CHR 0x0A] @ ''          Bu t'' @ [CHR 0xC3, CHR 0xBC] @
     ''r sorularda dikkat etmen gereken nokta, soruyu dikkatli '' @ ''okumak ve t'' @
     [CHR 0xC3, CHR 0xBC] @ ''m se'' @ [CHR 0xC3, CHR 0xA7] @ ''enekleri de'' @
     [CHR 0xC4, CHR 0x9F] @ ''erlendirmektir. '' @ [CHR 0x0A] @
     ''          Bir dahaki sefere daha dikkatli ol! '' @
     [CHR 0xF0, CHR 0x9F, CHR 0x92, CHR 0xAA]"

text \<open>The array that \<open>generateQuestionFromContent\<close> resolves with when parsing throws.\<close>

definition placeholder_questions :: "InteractiveQuestion list" where
  "placeholder_questions =
     [\<lparr>id_q = ''q1'', timestamp = 30,
        question = ''Bu konu hakk'' @ [CHR 0xC4, CHR 0xB1] @ ''nda ne '' @
          [CHR 0xC3, CHR 0xB6, CHR 0xC4, CHR 0x9F] @ ''rendin?'',
        options =
          [''A) Temel kavramlar'',
           ''B) Detayl'' @ [CHR 0xC4, CHR 0xB1] @ '' analiz'',
           ''C) Pratik uygulama'',
           ''D) Hepsi''],
        correctAnswer = ''D) Hepsi''\<rparr>,
      \<lparr>id_q = ''q2'', timestamp = 120,
        question = ''Hangi y'' @ [CHR 0xC3, CHR 0xB6] @ ''ntem daha etkili?'',
        options =
          [''A) Geleneksel y'' @ [CHR 0xC3, CHR 0xB6] @ ''ntem'',
           ''B) Modern yakla'' @ [CHR 0xC5, CHR 0x9F, CHR 0xC4, CHR 0xB1] @ ''m'',
           ''C) Hibrit y'' @ [CHR 0xC3, CHR 0xB6] @ ''ntem'',
           ''D) Deneme yan'' @ [CHR 0xC4, CHR 0xB1] @ ''lma''],
        correctAnswer = ''C) Hibrit y'' @ [CHR 0xC3, CHR 0xB6] @ ''ntem''\<rparr>,
      \<lparr>id_q = ''q3'', timestamp = 300,
        question = ''Bu bilgiyi nas'' @ [CHR 0xC4, CHR 0xB1] @ ''l uygulars'' @
          [CHR 0xC4, CHR 0xB1] @ ''n?'',
        options =
          [''A) Ezberleyerek'',
           ''B) Anlayarak'',
           ''C) Pratik yaparak'',
           ''D) B ve C''],
        correctAnswer = ''D) B ve C''\<rparr>]"

subsection \<open>The four public operations\<close>

text \<open>
  Each operation hands \<open>addToQueue\<close> a closure that settles the returned handle. The
  functions below are those closures: from the outcomes \<open>model i\<close> of the successive
  remote calls (\<open>generateContent\<close> then \<open>response.text()\<close>) to how the handle settles.
  The prompt only travels to the remote model, so it does not appear.
\<close>

definition generateText :: "(nat \<Rightarrow> string settled) \<Rightarrow> string or_undefined settled" where
  "generateText model =
     (case fst (retryWithBackoff model maxRetries_default) of
        Resolved result \<Rightarrow> Resolved result
      | Rejected error \<Rightarrow>
          if message_includes error ''429'' \<or> message_includes error ''quota''
          then Resolved (Defined (getOfflineResponse Chat))
          else Rejected error)"

definition analyzeImage :: "(nat \<Rightarrow> string settled) \<Rightarrow> string or_undefined settled" where
  "analyzeImage model =
     (case fst (retryWithBackoff model maxRetries_default) of
        Resolved result \<Rightarrow> Resolved result
      | Rejected error \<Rightarrow>
          if message_includes error ''429'' \<or> message_includes error ''quota''
          then Resolved (Defined (getOfflineResponse Image))
          else Rejected error)"

definition generateAIExplanation ::
  "(nat \<Rightarrow> string settled) \<Rightarrow> string \<Rightarrow> string list \<Rightarrow> string \<Rightarrow> string \<Rightarrow>
   string or_undefined settled" where
  "generateAIExplanation model question_text option_texts correct_answer user_answer =
     (case fst (retryWithBackoff model maxRetries_default) of
        Resolved result \<Rightarrow> Resolved result
      | Rejected error \<Rightarrow>
          if message_includes error ''429'' \<or> message_includes error ''quota''
          then Resolved (Defined (getOfflineResponse Explanation))
          else Resolved (Defined (explanation_fallback user_answer correct_answer)))"

text \<open>
  \<open>JSON.parse\<close> is the platform's: \<open>parse\<close> gives its value, or \<open>None\<close> where it throws.
  Applied to \<open>undefined\<close> it throws.
\<close>

definition JSON_parse :: "(string \<Rightarrow> 'j option) \<Rightarrow> string or_undefined \<Rightarrow> 'j option" where
  "JSON_parse parse text = (case text of Defined s \<Rightarrow> parse s | Undefined \<Rightarrow> None)"

text \<open>What the quiz handle resolves with: the parsed value or the literal array.\<close>

datatype 'j quiz = Parsed 'j | Questions "InteractiveQuestion list"

definition generateQuestionFromContent ::
  "(string \<Rightarrow> 'j option) \<Rightarrow> (nat \<Rightarrow> string settled) \<Rightarrow> string \<Rightarrow> string \<Rightarrow> 'j quiz settled" where
  "generateQuestionFromContent parse model content subject =
     (case fst (retryWithBackoff model maxRetries_default) of
        Resolved text \<Rightarrow>
          (case JSON_parse parse text of
             Some v \<Rightarrow> Resolved (Parsed v)
           | None \<Rightarrow> Resolved (Questions placeholder_questions))
      | Rejected error \<Rightarrow> Rejected error)"

subsection \<open>The request queue and its drain loop\<close>

text \<open>
  \<open>requestQueue\<close> holds closures; here each is named by a number. \<open>processQueue\<close> is an
  async function, so between its awaits other callbacks run, among them further calls of
  \<open>addToQueue\<close>. The model is its run on the event loop: \<open>phase\<close> records at which await the
  drain is suspended, and \<open>trace\<close> what it has done so far (oldest first). The
  \<open>console.error\<close> of the \<open>catch\<close> prints only and is left out; \<open>if (request)\<close> always holds
  for a closure taken from a non-empty queue.

  The awaited call \<open>request()\<close> ends in one of two ways: its promise fulfils, the closure
  having run to its end (\<open>Returned\<close>, with whether it resolved or rejected the handle of its
  operation), or its promise rejects (\<open>Threw\<close>).
\<close>

datatype unit_end = Returned bool | Threw

datatype drain_phase = Idle | AwaitingRequest nat | AwaitingDelay

datatype queue_log = Called nat | Settled nat unit_end | TimerSet nat | TimerFired

record gateway =
  requestQueue :: "nat list"
  isProcessing :: bool
  phase :: drain_phase
  trace :: "queue_log list"

text \<open>The module's initial state: \<open>requestQueue = []\<close>, \<open>isProcessing = false\<close>.\<close>

definition initial_gateway :: gateway where
  "initial_gateway = \<lparr>requestQueue = [], isProcessing = False, phase = Idle, trace = []\<rparr>"

text \<open>
  The \<open>while\<close> loop from its test to its next await: it leaves the loop on an empty queue
  (\<open>isProcessing = false\<close>), and otherwise shifts the first request and calls it.
\<close>

definition drain_loop :: "gateway \<Rightarrow> gateway" where
  "drain_loop g =
     (case requestQueue g of
        [] \<Rightarrow> g\<lparr>isProcessing := False, phase := Idle\<rparr>
      | request # rest \<Rightarrow>
          g\<lparr>requestQueue := rest, phase := AwaitingRequest request,
            trace := trace g @ [Called request]\<rparr>)"

definition processQueue :: "gateway \<Rightarrow> gateway" where
  "processQueue g =
     (if isProcessing g \<or> length (requestQueue g) = 0 then g
      else drain_loop (g\<lparr>isProcessing := True\<rparr>))"

definition addToQueue :: "nat \<Rightarrow> gateway \<Rightarrow> gateway" where
  "addToQueue request g = processQueue (g\<lparr>requestQueue := requestQueue g @ [request]\<rparr>)"

text \<open>
  The awaited request ends. When it returned, the next statement of the \<open>try\<close> block awaits
  a timer of \<open>RATE_LIMIT_DELAY\<close> ms. When it threw, control passes to the \<open>catch\<close> and from
  there to the loop test, past the timer.
\<close>

definition request_settles :: "unit_end \<Rightarrow> gateway \<Rightarrow> gateway" where
  "request_settles ending g =
     (case phase g of
        AwaitingRequest request \<Rightarrow>
          (case ending of
             Returned handle_resolved \<Rightarrow>
               g\<lparr>phase := AwaitingDelay,
                 trace := trace g @ [Settled request ending, TimerSet RATE_LIMIT_DELAY]\<rparr>
           | Threw \<Rightarrow> drain_loop (g\<lparr>trace := trace g @ [Settled request ending]\<rparr>))
      | _ \<Rightarrow> g)"

text \<open>The timer of the delay fires: back to the loop test.\<close>

definition timer_fires :: "gateway \<Rightarrow> gateway" where
  "timer_fires g =
     (case phase g of
        AwaitingDelay \<Rightarrow> drain_loop (g\<lparr>trace := trace g @ [TimerFired]\<rparr>)
      | _ \<Rightarrow> g)"

datatype gateway_event = AddToQueue nat | RequestSettles unit_end | TimerFires

fun gateway_step :: "gateway_event \<Rightarrow> gateway \<Rightarrow> gateway" where
  "gateway_step (AddToQueue request) g = addToQueue request g"
| "gateway_step (RequestSettles ending) g = request_settles ending g"
| "gateway_step TimerFires g = timer_fires g"

text \<open>
  \<open>addToQueue\<close> is not exported: the units of work that reach the queue are the closures
  of the four operations above. Each of them is one \<open>try\<close>/\<open>catch\<close> whose arms end by
  calling \<open>resolve\<close> or \<open>reject\<close> on the handle; neither arm throws. So a queued closure
  always returns, whether its work succeeded (the handle resolved) or failed (the handle
  rejected). A run of the module is therefore any sequence of these events: an operation
  is called and enqueues its closure, the closure in flight returns, the delay elapses.
\<close>

datatype module_event = OperationCalled nat | ClosureReturns bool | DelayElapses

fun as_gateway_event :: "module_event \<Rightarrow> gateway_event" where
  "as_gateway_event (OperationCalled request) = AddToQueue request"
| "as_gateway_event (ClosureReturns handle_resolved) = RequestSettles (Returned handle_resolved)"
| "as_gateway_event DelayElapses = TimerFires"

definition module_step :: "module_event \<Rightarrow> gateway \<Rightarrow> gateway" where
  "module_step e g = gateway_step (as_gateway_event e) g"

definition module_run :: "module_event list \<Rightarrow> gateway" where
  "module_run evs = fold module_step evs initial_gateway"

text \<open>The closures in submission order, and those called so far, in call order.\<close>

fun submitted :: "module_event list \<Rightarrow> nat list" where
  "submitted [] = []"
| "submitted (OperationCalled request # evs) = request # submitted evs"
| "submitted (e # evs) = submitted evs"

fun called :: "queue_log list \<Rightarrow> nat list" where
  "called [] = []"
| "called (Called request # tr) = request # called tr"
| "called (e # tr) = called tr"

text \<open>
  A trace is \<open>serial\<close> when it is a sequence of rounds, each one call followed by the end
  of that same request before anything else and then, however the request ended, by a
  timer of \<open>RATE_LIMIT_DELAY\<close> ms that fires before the next call. The last round may be
  unfinished.
\<close>

fun serial :: "queue_log list \<Rightarrow> bool" where
  "serial [] = True"
| "serial [Called r] = True"
| "serial (Called r # Settled r' ending # rest) =
     (r' = r \<and>
      (case rest of
         [TimerSet ms] \<Rightarrow> ms = RATE_LIMIT_DELAY
       | TimerSet ms # TimerFired # rest' \<Rightarrow> ms = RATE_LIMIT_DELAY \<and> serial rest'
       | _ \<Rightarrow> False))"
| "serial _ = False"

text \<open>
  Letting the drain run on: the closure in flight returns and the delay elapses, once for
  each outcome of the list.
\<close>

fun rounds :: "bool list \<Rightarrow> module_event list" where
  "rounds [] = []"
| "rounds (handle_resolved # outcomes) =
     ClosureReturns handle_resolved # DelayElapses # rounds outcomes"

text \<open>The trace of a finished round, and what relates the trace to the phase.\<close>

fun cycle :: "nat \<times> bool \<Rightarrow> queue_log list" where
  "cycle (r, handle_resolved) =
     [Called r, Settled r (Returned handle_resolved), TimerSet RATE_LIMIT_DELAY, TimerFired]"

definition drain_inv :: "gateway \<Rightarrow> bool" where
  "drain_inv g =
     (\<exists>finished.
        (case phase g of
           Idle \<Rightarrow> trace g = concat (map cycle finished) \<and> requestQueue g = []
             \<and> \<not> isProcessing g
         | AwaitingRequest r \<Rightarrow> trace g = concat (map cycle finished) @ [Called r]
             \<and> isProcessing g
         | AwaitingDelay \<Rightarrow>
             (\<exists>r b. trace g = concat (map cycle finished) @
                [Called r, Settled r (Returned b), TimerSet RATE_LIMIT_DELAY])
             \<and> isProcessing g))"

section \<open>The lesson page (pages/LessonDetailPage)\<close>

text \<open>
  The state hooks of the page that the question logic reads or writes. \<open>videoProgress\<close>
  starts at 0 and no code of the page sets it. The page keeps no set of answered
  questions.
\<close>

record lesson_page =
  currentQuestion :: "InteractiveQuestion option"
  showQuestionModal :: bool
  selectedAnswer :: string
  isAnswering :: bool
  showExplanation :: bool
  aiExplanation :: "string or_undefined"
  videoProgress :: real
  isVideoPlaying :: bool

definition initial_page :: lesson_page where
  "initial_page =
     \<lparr>currentQuestion = None, showQuestionModal = False, selectedAnswer = [],
      isAnswering = False, showExplanation = False, aiExplanation = Defined [],
      videoProgress = 0, isVideoPlaying = False\<rparr>"

text \<open>
  The test \<open>Math.abs(q.timestamp - currentTime) < 2\<close> of the interval callback, with the
  subtraction rounded as the platform rounds it.
\<close>

definition within_tolerance :: "real \<Rightarrow> real \<Rightarrow> bool" where
  "within_tolerance t currentTime =
     (case double_round (t - currentTime) of None \<Rightarrow> False | Some d \<Rightarrow> \<bar>d\<bar> < 2)"

text \<open>
  The interval callback of \<open>startQuestionCheck\<close>. It reads \<open>videoProgress\<close> and
  \<open>showQuestionModal\<close> through its closure, so the values it reads are parameters here:
  \<open>currentTime\<close> and \<open>modal_shown\<close>. \<open>question_due\<close> is the question for which the body of
  its \<open>if\<close> runs.
\<close>

definition question_due :: "InteractiveQuestion list \<Rightarrow> real \<Rightarrow> bool \<Rightarrow> InteractiveQuestion option" where
  "question_due interactive_questions currentTime modal_shown =
     (case find (\<lambda>q. within_tolerance (timestamp q) currentTime) interactive_questions of
        Some q \<Rightarrow> if \<not> modal_shown then Some q else None
      | None \<Rightarrow> None)"

definition question_check ::
  "InteractiveQuestion list option \<Rightarrow> real \<Rightarrow> bool \<Rightarrow> lesson_page \<Rightarrow> lesson_page" where
  "question_check interactive_questions currentTime modal_shown s =
     (case interactive_questions of
        None \<Rightarrow> s
      | Some qs \<Rightarrow>
          (case question_due qs currentTime modal_shown of
             Some q \<Rightarrow>
               s\<lparr>currentQuestion := Some q, showQuestionModal := True, isVideoPlaying := False\<rparr>
           | None \<Rightarrow> s))"

text \<open>The effect that installs the interval: only for a lesson with at least one question.\<close>

definition question_check_started :: "InteractiveQuestion list option \<Rightarrow> bool" where
  "question_check_started interactive_questions =
     (case interactive_questions of None \<Rightarrow> False | Some qs \<Rightarrow> length qs > 0)"

text \<open>
  That effect has the dependency list \<open>[lesson]\<close>: it calls \<open>startQuestionCheck\<close> in the render
  in which the lesson arrived, and the callback installed there keeps the \<open>videoProgress\<close>
  and \<open>showQuestionModal\<close> of that render. \<open>startQuestionCheck s\<close> is what a callback
  installed in state \<open>s\<close> holds, and \<open>installed_check\<close> is one firing of that callback.
  Until the lesson has arrived the page renders a spinner only, so on the first load the
  lesson arrives in the page's initial state and the callback installed then holds
  \<open>startQuestionCheck initial_page\<close>.
\<close>

record check_closure =
  closure_videoProgress :: real
  closure_showQuestionModal :: bool

definition startQuestionCheck :: "lesson_page \<Rightarrow> check_closure" where
  "startQuestionCheck s =
     \<lparr>closure_videoProgress = videoProgress s, closure_showQuestionModal = showQuestionModal s\<rparr>"

definition installed_check ::
  "InteractiveQuestion list option \<Rightarrow> check_closure \<Rightarrow> lesson_page \<Rightarrow> lesson_page" where
  "installed_check interactive_questions c s =
     question_check interactive_questions (closure_videoProgress c)
       (closure_showQuestionModal c) s"

text \<open>
  The claim's words for the question that may become active at position \<open>P\<close>: the first
  one in list order that passes the tolerance test.
\<close>

definition first_within_tolerance ::
  "InteractiveQuestion list \<Rightarrow> real \<Rightarrow> InteractiveQuestion \<Rightarrow> bool" where
  "first_within_tolerance qs P Q =
     (\<exists>i<length qs. qs ! i = Q \<and> within_tolerance (timestamp Q) P
        \<and> (\<forall>j<i. \<not> within_tolerance (timestamp (qs ! j)) P))"

text \<open>What the handlers do besides setting state.\<close>

datatype toast = ToastSuccess string | ToastError string

record mistake_row =
  m_user_id :: string
  m_lesson_id :: "string option"
  m_question :: InteractiveQuestion
  m_user_answer :: string
  m_correct_answer :: string
  m_ai_explanation :: "string or_undefined"

datatype page_effect =
    is_ExplanationRequest: ExplanationRequest string "string list" string string
  | is_MistakeInsert: MistakeInsert mistake_row
  | Toast toast

definition toast_read_explanation :: string where
  "toast_read_explanation =
     ''Yanl'' @ [CHR 0xC4, CHR 0xB1, CHR 0xC5, CHR 0x9F] @ '' cevap! A'' @
     [CHR 0xC3, CHR 0xA7, CHR 0xC4, CHR 0xB1] @ ''klamay'' @ [CHR 0xC4, CHR 0xB1] @
     '' okuyun.''"

definition toast_no_explanation :: string where
  "toast_no_explanation =
     ''AI a'' @ [CHR 0xC3, CHR 0xA7, CHR 0xC4, CHR 0xB1] @ ''klamas'' @
     [CHR 0xC4, CHR 0xB1] @ '' olu'' @ [CHR 0xC5, CHR 0x9F] @ ''turulamad'' @
     [CHR 0xC4, CHR 0xB1]"

definition toast_correct_page :: string where
  "toast_correct_page =
     ''Do'' @ [CHR 0xC4, CHR 0x9F] @ ''ru cevap! +15 XP kazand'' @
     [CHR 0xC4, CHR 0xB1] @ ''n'' @ [CHR 0xC4, CHR 0xB1] @ ''z!''"

text \<open>
  \<open>handleAnswerSubmit\<close>, from the click to the end of the handler. \<open>userId\<close> is
  \<open>userData?.id\<close> and \<open>lessonId\<close> the route parameter; \<open>model\<close> gives the outcomes of the
  remote calls behind \<open>generateAIExplanation\<close>. The first line of the handler returns
  when no answer is selected, no question is current or no user id is there. The insert
  into \<open>lesson_mistakes\<close> is an effect whose result the handler does not look at. The
  handler awaits the explanation and the insert; the state given here is that of a run in
  which no other callback comes between. The branch of a correct answer has no await.
\<close>

definition handleAnswerSubmit ::
  "(nat \<Rightarrow> string settled) \<Rightarrow> string option \<Rightarrow> string option \<Rightarrow> lesson_page \<Rightarrow>
   lesson_page \<times> page_effect list" where
  "handleAnswerSubmit model userId lessonId s =
     (case (currentQuestion s, userId) of
        (Some q, Some uid) \<Rightarrow>
          if selectedAnswer s = [] \<or> uid = [] then (s, [])
          else if selectedAnswer s \<noteq> correctAnswer q then
            (case generateAIExplanation model (question q) (options q) (correctAnswer q)
                    (selectedAnswer s) of
               Resolved explanation \<Rightarrow>
                 (s\<lparr>aiExplanation := explanation, showExplanation := True,
                    isAnswering := False\<rparr>,
                  [ExplanationRequest (question q) (options q) (correctAnswer q)
                     (selectedAnswer s),
                   MistakeInsert
                     \<lparr>m_user_id = uid, m_lesson_id = lessonId, m_question = q,
                      m_user_answer = selectedAnswer s, m_correct_answer = correctAnswer q,
                      m_ai_explanation = explanation\<rparr>,
                   Toast (ToastError toast_read_explanation)])
             | Rejected error \<Rightarrow>
                 (s\<lparr>isAnswering := False\<rparr>,
                  [ExplanationRequest (question q) (options q) (correctAnswer q)
                     (selectedAnswer s),
                   Toast (ToastError toast_no_explanation)]))
          else (s\<lparr>isAnswering := False\<rparr>, [Toast (ToastSuccess toast_correct_page)])
      | _ \<Rightarrow> (s, []))"

definition closeQuestionModal :: "lesson_page \<Rightarrow> lesson_page" where
  "closeQuestionModal s =
     s\<lparr>showQuestionModal := False, currentQuestion := None, selectedAnswer := [],
       showExplanation := False, aiExplanation := Defined [], isVideoPlaying := True\<rparr>"

text \<open>A click on the marker of question \<open>q\<close>, and a click on an option of the modal.\<close>

definition marker_click :: "InteractiveQuestion \<Rightarrow> lesson_page \<Rightarrow> lesson_page" where
  "marker_click q s = s\<lparr>currentQuestion := Some q, showQuestionModal := True\<rparr>"

definition select_option :: "string \<Rightarrow> lesson_page \<Rightarrow> lesson_page" where
  "select_option option_text s = s\<lparr>selectedAnswer := option_text\<rparr>"

text \<open>The modal is rendered by \<open>{showQuestionModal && currentQuestion && (...)}\<close>.\<close>

definition page_modals :: "lesson_page \<Rightarrow> InteractiveQuestion list" where
  "page_modals s =
     (if showQuestionModal s then (case currentQuestion s of Some q \<Rightarrow> [q] | None \<Rightarrow> [])
      else [])"

section \<open>The video player (components/Lessons/VideoPlayer)\<close>

text \<open>
  The state hooks of the component that the question logic reads or writes; \<open>player\<close>
  tells whether the \<open>player\<close> state holds an object, \<open>iframe_src\<close> is the \<open>src\<close> of the
  iframe behind \<open>playerRef\<close>, \<open>None\<close> while no iframe is mounted. The component itself
  never calls \<open>setPlayer\<close>; the model leaves \<open>player\<close> free, so that the properties below
  also cover a player that has been set.
\<close>

record video_player =
  player :: bool
  activeQuestion :: "InteractiveQuestion option"
  answeredQuestions :: "string list"
  isPlaying :: bool
  iframe_src :: "string option"

text \<open>
  The interval callback, installed while \<open>player && isPlaying\<close>; \<open>position\<close> is what
  \<open>player.getCurrentTime()\<close> returns. \<open>questionToShow\<close> is its \<open>find\<close>.
\<close>

definition questionToShow ::
  "InteractiveQuestion list \<Rightarrow> string list \<Rightarrow> real \<Rightarrow> InteractiveQuestion option" where
  "questionToShow questions answered position =
     (let currentTime = real_of_int \<lfloor>position\<rfloor>
      in find (\<lambda>q. timestamp q = currentTime \<and> id_q q \<notin> set answered) questions)"

definition interval_check :: "InteractiveQuestion list \<Rightarrow> real \<Rightarrow> video_player \<Rightarrow> video_player" where
  "interval_check questions position s =
     (if player s \<and> isPlaying s then
        (case questionToShow questions (answeredQuestions s) position of
           Some q \<Rightarrow> s\<lparr>isPlaying := False, activeQuestion := Some q\<rparr>
         | None \<Rightarrow> s)
      else s)"

definition toast_correct_player :: string where
  "toast_correct_player =
     ''Do'' @ [CHR 0xC4, CHR 0x9F] @ ''ru cevap! +15 XP kazand'' @
     [CHR 0xC4, CHR 0xB1] @ ''n'' @ [CHR 0xC4, CHR 0xB1] @ ''z! '' @
     [CHR 0xF0, CHR 0x9F, CHR 0x8E, CHR 0x89]"

definition toast_rewind :: string where
  "toast_rewind =
     ''Yanl'' @ [CHR 0xC4, CHR 0xB1, CHR 0xC5, CHR 0x9F] @ '' cevap! Video ba'' @
     [CHR 0xC5, CHR 0x9F] @ ''a sar'' @ [CHR 0xC4, CHR 0xB1] @ ''l'' @
     [CHR 0xC4, CHR 0xB1] @ ''yor.''"

text \<open>
  \<open>handleAnswer\<close>; \<open>customEmbedUrl\<close> is the embed URL the component computes from its
  link. Assigning it to the iframe's \<open>src\<close> loads the video anew, from its start.
\<close>

definition handleAnswer :: "string \<Rightarrow> bool \<Rightarrow> video_player \<Rightarrow> video_player \<times> toast list" where
  "handleAnswer customEmbedUrl isCorrect s =
     (case activeQuestion s of
        None \<Rightarrow> (s, [])
      | Some q \<Rightarrow>
          if isCorrect then
            (s\<lparr>answeredQuestions := answeredQuestions s @ [id_q q], activeQuestion := None,
               isPlaying := True\<rparr>,
             [ToastSuccess toast_correct_player])
          else
            (s\<lparr>answeredQuestions := [], activeQuestion := None,
               iframe_src := (case iframe_src s of None \<Rightarrow> None
                              | Some old \<Rightarrow> Some customEmbedUrl),
               isPlaying := True\<rparr>,
             [ToastError toast_rewind]))"

definition modal_close :: "video_player \<Rightarrow> video_player" where
  "modal_close s = s\<lparr>activeQuestion := None\<rparr>"

definition togglePlay :: "video_player \<Rightarrow> video_player" where
  "togglePlay s = s\<lparr>isPlaying := \<not> isPlaying s\<rparr>"

definition handleSeek :: "string \<Rightarrow> video_player \<Rightarrow> video_player" where
  "handleSeek customEmbedUrl s =
     s\<lparr>iframe_src := (case iframe_src s of None \<Rightarrow> None | Some old \<Rightarrow> Some customEmbedUrl)\<rparr>"

text \<open>The modal is rendered by \<open>{activeQuestion && (...)}\<close>.\<close>

definition player_modals :: "video_player \<Rightarrow> InteractiveQuestion list" where
  "player_modals s = (case activeQuestion s of Some q \<Rightarrow> [q] | None \<Rightarrow> [])"

datatype player_event =
    IntervalCheck real
  | Answer bool
  | ModalClose
  | TogglePlay
  | Seek

fun player_step ::
  "InteractiveQuestion list \<Rightarrow> string \<Rightarrow> player_event \<Rightarrow> video_player \<Rightarrow> video_player" where
  "player_step questions url (IntervalCheck position) s = interval_check questions position s"
| "player_step questions url (Answer isCorrect) s = fst (handleAnswer url isCorrect s)"
| "player_step questions url ModalClose s = modal_close s"
| "player_step questions url TogglePlay s = togglePlay s"
| "player_step questions url Seek s = handleSeek url s"

definition player_run ::
  "InteractiveQuestion list \<Rightarrow> string \<Rightarrow> player_event list \<Rightarrow> video_player \<Rightarrow> video_player" where
  "player_run questions url evs s = fold (player_step questions url) evs s"

text \<open>
  The active question of the player is never one whose id is in the answered list.
\<close>

definition active_unanswered :: "video_player \<Rightarrow> bool" where
  "active_unanswered s =
     (case activeQuestion s of None \<Rightarrow> True | Some a \<Rightarrow> id_q a \<notin> set (answeredQuestions s))"

text \<open>
  What holds of the player once the question with id \<open>i\<close> has been answered correctly, for
  as long as no wrong answer follows: the id is in the answered list once, and the active
  question is another one.
\<close>

definition answered_inv :: "string \<Rightarrow> video_player \<Rightarrow> bool" where
  "answered_inv i s =
     (count_list (answeredQuestions s) i = 1
      \<and> (case activeQuestion s of None \<Rightarrow> True | Some a \<Rightarrow> id_q a \<noteq> i))"

section \<open>A lesson used in the examples\<close>

definition demo_q30 :: InteractiveQuestion where
  "demo_q30 = \<lparr>id_q = ''a'', timestamp = 30, question = ''2 + 2 = ?'',
     options = [''3'', ''4''], correctAnswer = ''4''\<rparr>"

definition demo_q31 :: InteractiveQuestion where
  "demo_q31 = \<lparr>id_q = ''b'', timestamp = 31, question = ''3 + 3 = ?'',
     options = [''6'', ''7''], correctAnswer = ''6''\<rparr>"

definition demo_q120 :: InteractiveQuestion where
  "demo_q120 = \<lparr>id_q = ''c'', timestamp = 120, question = ''5 - 1 = ?'',
     options = [''4'', ''6''], correctAnswer = ''4''\<rparr>"

definition demo_questions :: "InteractiveQuestion list" where
  "demo_questions = [demo_q30, demo_q31, demo_q120]"

text \<open>A lesson whose first two questions stand at the start of the video.\<close>

definition early_q0 :: InteractiveQuestion where
  "early_q0 = \<lparr>id_q = ''e0'', timestamp = 0, question = ''1 + 1 = ?'',
     options = [''2'', ''3''], correctAnswer = ''2''\<rparr>"

definition early_q1 :: InteractiveQuestion where
  "early_q1 = \<lparr>id_q = ''e1'', timestamp = 1, question = ''2 + 1 = ?'',
     options = [''3'', ''5''], correctAnswer = ''3''\<rparr>"

definition early_questions :: "InteractiveQuestion list" where
  "early_questions = [early_q0, early_q1, demo_q120]"

text \<open>
  One firing of the check that the page installs when this lesson first arrives; the
  page after that check has opened the question at 0 s and the learner has selected its
  right option; and the submission of that answer by a signed-in learner.
\<close>

definition early_check :: "lesson_page \<Rightarrow> lesson_page" where
  "early_check s = installed_check (Some early_questions) (startQuestionCheck initial_page) s"

definition early_selected :: lesson_page where
  "early_selected = select_option ''2'' (early_check initial_page)"

definition early_answered :: "lesson_page \<times> page_effect list" where
  "early_answered =
     handleAnswerSubmit (\<lambda>i. Resolved ''Because 1 + 1 = 2.'') (Some ''user-1'')
       (Some ''lesson-1'') early_selected"

text \<open>A mounted player that is playing, with nothing answered and no question active.\<close>

definition demo_player :: video_player where
  "demo_player = \<lparr>player = True, activeQuestion = None, answeredQuestions = [],
     isPlaying = True, iframe_src = Some ''https://www.youtube.com/embed/dQw4w9WgXcQ''\<rparr>"

section \<open>Properties of the number model\<close>

lemma binade_lt2: "x < 2 \<Longrightarrow> binade n x \<le> 0"
proof (induction n arbitrary: x)
  case 0
  show ?case by simp
next
  case (Suc n)
  show ?case
  proof (cases "x < 1")
    case True
    then have "x * 2 < 2" by simp
    from Suc.IH [OF this] True Suc.prems show ?thesis by simp
  next
    case False
    with Suc.prems show ?thesis by simp
  qed
qed

lemma binade_lt1: "x < 1 \<Longrightarrow> 0 < n \<Longrightarrow> binade n x \<le> - 1"
  using binade_lt2 [of "x * 2" "n - 1"] by (cases n) auto

lemma binade_ge1: "1 \<le> x \<Longrightarrow> 0 \<le> binade n x \<and> 2 powi (binade n x) \<le> x"
proof (induction n arbitrary: x)
  case 0
  then show ?case by simp
next
  case (Suc n)
  show ?case
  proof (cases "2 \<le> x")
    case True
    then have "1 \<le> x / 2" by simp
    from Suc.IH [OF this] have ih: "0 \<le> binade n (x / 2)" "2 powi (binade n (x / 2)) \<le> x / 2"
      by auto
    have "(2::real) powi (binade n (x / 2) + 1) = 2 powi (binade n (x / 2)) * 2"
      by (simp add: power_int_add)
    with ih True show ?thesis by simp
  next
    case False
    with Suc.prems show ?thesis by simp
  qed
qed

lemma binade_ge2: "2 \<le> x \<Longrightarrow> 0 < n \<Longrightarrow> 1 \<le> binade n x"
  using binade_ge1 [of "x / 2" "n - 1"] by (cases n) auto

lemma binade_unit: "1 \<le> x \<Longrightarrow> x < 2 \<Longrightarrow> 0 < n \<Longrightarrow> binade n x = 0"
  by (cases n) auto

lemma round_half_even_bounds:
  "\<lfloor>y\<rfloor> \<le> round_half_even y \<and> round_half_even y \<le> \<lfloor>y\<rfloor> + 1"
  by (simp add: round_half_even_def Let_def)

lemma round_half_even_ge: "of_int m \<le> y \<Longrightarrow> m \<le> round_half_even y"
proof -
  assume "of_int m \<le> y"
  then have "m \<le> \<lfloor>y\<rfloor>" by (simp add: le_floor_iff)
  with round_half_even_bounds [of y] show ?thesis by simp
qed

lemma round_half_even_le: "y \<le> of_int m \<Longrightarrow> round_half_even y \<le> m"
proof (cases "y = of_int m")
  case True
  then show ?thesis by (simp add: round_half_even_def)
next
  case False
  assume "y \<le> of_int m"
  with False have "y < of_int m" by simp
  then have "\<lfloor>y\<rfloor> < m" by (simp add: floor_less_iff)
  with round_half_even_bounds [of y] show ?thesis by simp
qed

lemma round_half_even_below_even:
  assumes "even N"
  shows "round_half_even y < N \<longleftrightarrow> y < of_int N - 1 / 2"
proof
  assume lt: "y < of_int N - 1 / 2"
  then have "y < of_int N" by simp
  then have fl: "\<lfloor>y\<rfloor> \<le> N - 1" by (simp add: floor_less_iff)
  show "round_half_even y < N"
  proof (cases "\<lfloor>y\<rfloor> = N - 1")
    case True
    then have "y - of_int \<lfloor>y\<rfloor> < 1 / 2" using lt by simp
    with True show ?thesis by (simp add: round_half_even_def Let_def)
  next
    case False
    with fl have "\<lfloor>y\<rfloor> + 1 < N" by simp
    with round_half_even_bounds [of y] show ?thesis by simp
  qed
next
  assume r: "round_half_even y < N"
  show "y < of_int N - 1 / 2"
  proof (rule ccontr)
    assume "\<not> y < of_int N - 1 / 2"
    then have ge: "of_int N - 1 / 2 \<le> y" by simp
    then have "of_int (N - 1) \<le> y" by simp
    then have fl: "N - 1 \<le> \<lfloor>y\<rfloor>" by (simp add: le_floor_iff)
    show False
    proof (cases "\<lfloor>y\<rfloor> = N - 1")
      case True
      then have frac: "1 / 2 \<le> y - of_int \<lfloor>y\<rfloor>" using ge by simp
      have "odd \<lfloor>y\<rfloor>" using True assms by simp
      with frac True have "round_half_even y = N"
        by (auto simp: round_half_even_def Let_def)
      with r show False by simp
    next
      case False
      with fl have "N \<le> \<lfloor>y\<rfloor>" by simp
      with round_half_even_bounds [of y] r show False by simp
    qed
  qed
qed

lemma double_round_tolerance:
  "(case double_round x of None \<Rightarrow> False | Some d \<Rightarrow> \<bar>d\<bar> < 2) \<longleftrightarrow> \<bar>x\<bar> < 2 - 1 / 2 ^ 53"
proof (cases "x = 0")
  case True
  then show ?thesis by (simp add: double_round_def)
next
  case False
  define a :: real where "a = \<bar>x\<bar>"
  define e where "e = max (binade 1100 a) (- 1022)"
  define k where "k = 52 - e"
  define n where "n = round_half_even (a * 2 powi k)"
  define v :: real where "v = of_int n * 2 powi (- k)"
  have a_pos: "0 < a" using False by (simp add: a_def)
  have inv: "(2::real) powi (- k) * 2 powi k = 1"
    by (simp add: power_int_minus)
  have "(2::real) powi (e - 52) = 2 powi (- k)" by (simp add: k_def)
  moreover have "a / 2 powi (- k) = a * 2 powi k"
    by (simp add: power_int_minus divide_inverse)
  ultimately have res:
    "double_round x = (if 2 ^ 1024 \<le> v then None else Some (sgn x * v))"
    using False by (simp add: double_round_def Let_def a_def e_def n_def v_def)
  have n_nonneg: "0 \<le> n"
    unfolding n_def using a_pos by (intro round_half_even_ge) simp
  then have v_nonneg: "0 \<le> v" by (simp add: v_def)
  have abs_res: "\<bar>sgn x * v\<bar> = v"
    using False v_nonneg by (simp add: abs_mult)
  consider "a < 1" | "1 \<le> a" "a < 2" | "2 \<le> a" by linarith
  then show ?thesis
  proof cases
    case 1
    then have "binade 1100 a \<le> - 1" by (intro binade_lt1) simp_all
    then have "e \<le> - 1" by (simp add: e_def)
    then have k: "0 \<le> k" by (simp add: k_def)
    then have pw: "(2::real) powi k = of_int (2 ^ nat k)" by (simp add: power_int_def)
    have "0 < (2::real) powi k" by simp
    with 1 a_pos have "a * 2 powi k \<le> 2 powi k"
      by (simp add: mult_le_cancel_right1)
    then have "n \<le> 2 ^ nat k"
      unfolding n_def pw by (rule round_half_even_le)
    then have "of_int n \<le> (2::real) powi k"
      unfolding pw by (simp only: of_int_le_iff)
    then have "v \<le> 2 powi k * 2 powi (- k)"
      unfolding v_def by (intro mult_right_mono) simp_all
    then have "v \<le> 1" using inv by (simp add: mult.commute)
    moreover have "(1::real) < 2 ^ 1024" by simp
    ultimately have "double_round x = Some (sgn x * v)" "v < 2"
      using res by simp_all
    moreover have "a < 2 - 1 / 2 ^ 53" using 1 by simp
    ultimately show ?thesis using abs_res by (simp add: a_def)
  next
    case 2
    then have "binade 1100 a = 0" by (intro binade_unit) simp_all
    then have "e = 0" by (simp add: e_def)
    then have k: "k = 52" by (simp add: k_def)
    have n: "n = round_half_even (a * 2 ^ 52)" by (simp add: n_def k)
    have "(2::real) powi (- 52) = 1 / 2 ^ 52"
      by (simp add: power_int_minus field_simps)
    then have v: "v = of_int n / 2 ^ 52"
      by (simp add: v_def k)
    have "a * 2 ^ 52 \<le> of_int (2 ^ 53)" using 2 by simp
    then have "n \<le> 2 ^ 53" unfolding n by (rule round_half_even_le)
    then have "of_int n \<le> (2::real) ^ 53"
      by (metis of_int_le_iff of_int_numeral of_int_power)
    then have "v \<le> 2" by (simp add: v field_simps)
    moreover have "(2::real) < 2 ^ 1024" by simp
    ultimately have some: "double_round x = Some (sgn x * v)"
      using res by simp
    have "v < 2 \<longleftrightarrow> of_int n < (2::real) ^ 53"
      by (simp add: v field_simps)
    also have "\<dots> \<longleftrightarrow> n < 2 ^ 53"
      by (metis of_int_less_iff of_int_numeral of_int_power)
    also have "\<dots> \<longleftrightarrow> a * 2 ^ 52 < of_int (2 ^ 53) - 1 / 2"
      unfolding n by (rule round_half_even_below_even) simp
    also have "\<dots> \<longleftrightarrow> a < 2 - 1 / 2 ^ 53"
      by (simp add: field_simps)
    finally show ?thesis using some abs_res by (simp add: a_def)
  next
    case 3
    then have e1: "1 \<le> binade 1100 a" by (intro binade_ge2) simp_all
    from 3 have "1 \<le> a" by simp
    from binade_ge1 [OF this, of 1100] have low: "2 powi (binade 1100 a) \<le> a" by simp
    have e: "e = binade 1100 a" using e1 by (simp add: e_def)
    have "(2::real) powi e * 2 powi k = 2 powi 52"
      by (simp add: k_def flip: power_int_add)
    moreover have "2 powi e * 2 powi k \<le> a * 2 powi k"
      using low e by (intro mult_right_mono) simp_all
    ultimately have "of_int (2 ^ 52) \<le> a * 2 powi k" by simp
    then have "2 ^ 52 \<le> n" unfolding n_def by (rule round_half_even_ge)
    then have "(2::real) ^ 52 \<le> of_int n"
      by (metis of_int_le_iff of_int_numeral of_int_power)
    then have "2 ^ 52 * 2 powi (- k) \<le> v"
      unfolding v_def by (intro mult_right_mono) simp_all
    moreover have "(2::real) ^ 52 * 2 powi (- k) = 2 powi e"
    proof -
      have "(2::real) powi (52 + (- k)) = 2 powi 52 * 2 powi (- k)"
        by (rule power_int_add) simp
      moreover have "52 + (- k) = e" by (simp add: k_def)
      ultimately show ?thesis by simp
    qed
    moreover have "(2::real) powi 1 \<le> 2 powi e"
      using e1 e by (intro power_int_increasing) simp_all
    ultimately have "2 \<le> v" by simp
    then have "\<not> (case double_round x of None \<Rightarrow> False | Some d \<Rightarrow> \<bar>d\<bar> < 2)"
      using res abs_res by simp
    moreover have "\<not> a < 2 - 1 / 2 ^ 53" using 3 by simp
    ultimately show ?thesis by (simp add: a_def)
  qed
qed

text \<open>
  The tolerance test in exact terms: the rounded difference is below 2 exactly when the
  exact one is below \<open>2 - 2^-53\<close>.
\<close>

lemma within_tolerance_iff:
  "within_tolerance t currentTime \<longleftrightarrow> \<bar>t - currentTime\<bar> < 2 - 1 / 2 ^ 53"
  unfolding within_tolerance_def by (rule double_round_tolerance)

section \<open>Properties of the retry wrapper\<close>

declare retry_loop.simps [simp del]

lemma str_includes_sublist: "str_includes s sub \<longleftrightarrow> sublist sub s"
  by (induction s) (auto simp: sublist_Cons_right)

lemma retry_loop_stops:
  "i + n < maxRetries \<Longrightarrow> (\<forall>j<n. rate_limited (fn (i + j))) \<Longrightarrow>
   i + n = maxRetries - 1 \<or> \<not> rate_limited (fn (i + n)) \<Longrightarrow>
   retry_loop fn maxRetries i = (settle_defined (fn (i + n)), backoff_trace i n)"
proof (induction n arbitrary: i)
  case 0
  then show ?case
    by (cases "fn i")
       (auto simp: retry_loop.simps [of fn maxRetries i] settle_defined_def rate_limited_def)
next
  case (Suc n)
  from Suc.prems(2) have first: "rate_limited (fn i)"
    by (metis add.right_neutral zero_less_Suc)
  then obtain e where e: "fn i = Rejected e" "message_includes e ''429''"
    by (auto simp: rate_limited_def split: settled.splits)
  have rest: "\<forall>j<n. rate_limited (fn (Suc i + j))"
    using Suc.prems(2) by (metis Suc_less_eq add_Suc_right add_Suc)
  have "retry_loop fn maxRetries (Suc i) =
          (settle_defined (fn (Suc i + n)), backoff_trace (Suc i) n)"
    using Suc.prems(1,3) rest by (intro Suc.IH) auto
  with e Suc.prems(1) show ?case
    by (simp add: retry_loop.simps [of fn maxRetries i])
qed

lemma attempts_backoff_trace: "attempts (backoff_trace i n) = Suc n"
  by (induction n arbitrary: i) auto

lemma waits_backoff_trace: "waits (backoff_trace i n) = map (\<lambda>j. 2 ^ j * 1000) [i..<i + n]"
  by (induction n arbitrary: i) (auto simp: upt_rec)

text \<open>
  Claim C3. A unit of work run through \<open>retryWithBackoff\<close> with the default of 3
  attempts: when its first \<open>k\<close> attempts fail with a rate-limited error and attempt \<open>k\<close>
  is the last allowed one or does not fail rate-limited, the wrapper makes exactly the
  calls \<open>0..k\<close> (at most 3), waits \<open>2^i * 1000\<close> ms after failed attempt \<open>i\<close> (1 s, then
  2 s), and settles as attempt \<open>k\<close> did: with its value when it succeeded, with its error
  when it failed. In particular a non-rate-limited error at attempt \<open>k\<close> is thrown with no
  further call.
\<close>

theorem retryWithBackoff_retries_rate_limited:
  assumes "k < maxRetries_default"
    and "\<forall>i<k. rate_limited (fn i)"
    and "k = maxRetries_default - 1 \<or> \<not> rate_limited (fn k)"
  shows "retryWithBackoff fn maxRetries_default = (settle_defined (fn k), backoff_trace 0 k)
    \<and> attempts (snd (retryWithBackoff fn maxRetries_default)) = k + 1
    \<and> attempts (snd (retryWithBackoff fn maxRetries_default)) \<le> 3
    \<and> waits (snd (retryWithBackoff fn maxRetries_default)) = map (\<lambda>i. 2 ^ i * 1000) [0..<k]"
proof -
  have run: "retryWithBackoff fn maxRetries_default = (settle_defined (fn k), backoff_trace 0 k)"
    unfolding retryWithBackoff_def
    using retry_loop_stops [of 0 k maxRetries_default fn] assms by simp
  moreover have "k + 1 \<le> 3"
    using assms(1) by (simp add: maxRetries_default_def)
  ultimately show ?thesis
    by (simp add: attempts_backoff_trace waits_backoff_trace)
qed

text \<open>
  The spec's example: the unit fails rate-limited twice and succeeds on the third attempt.
\<close>

theorem retryWithBackoff_retries_rate_limited_witness:
  "retryWithBackoff
     (\<lambda>i. if i < 2 then Rejected (Error (Some ''[429] Too Many Requests'')) else Resolved ''ok'')
     maxRetries_default
   = (Resolved (Defined ''ok''), [Call 0, Wait 1000, Call 1, Wait 2000, Call 2])"
  using retryWithBackoff_retries_rate_limited
    [of 2 "\<lambda>i. if i < 2 then Rejected (Error (Some ''[429] Too Many Requests'')) else Resolved ''ok''"]
  by (simp add: maxRetries_default_def rate_limited_def message_includes_def settle_defined_def
      numeral_2_eq_2)

section \<open>Properties of the four operations\<close>

text \<open>Which attempt decides a run with the default of 3 attempts, and that one always does.\<close>

lemma retry_default_result:
  assumes "k < maxRetries_default" and "\<forall>i<k. rate_limited (model i)"
    and "k = maxRetries_default - 1 \<or> \<not> rate_limited (model k)"
  shows "fst (retryWithBackoff model maxRetries_default) = settle_defined (model k)"
  unfolding retryWithBackoff_def
  using retry_loop_stops [of 0 k maxRetries_default model] assms by simp

lemma retry_default_cases:
  "\<exists>k<maxRetries_default. (\<forall>i<k. rate_limited (model i)) \<and>
      (k = maxRetries_default - 1 \<or> \<not> rate_limited (model k))"
proof (cases "rate_limited (model 0)")
  case False
  then show ?thesis by (intro exI [of _ 0]) (simp add: maxRetries_default_def)
next
  case r0: True
  show ?thesis
  proof (cases "rate_limited (model 1)")
    case False
    with r0 show ?thesis by (intro exI [of _ 1]) (simp add: maxRetries_default_def)
  next
    case True
    with r0 show ?thesis
      by (intro exI [of _ 2]) (auto simp: maxRetries_default_def less_Suc_eq numeral_2_eq_2)
  qed
qed

text \<open>The four offline texts differ pairwise: already their first four bytes do.\<close>

lemma offline_prefixes:
  "take 4 (getOfflineResponse Chat) = ''Merh''"
  "take 4 (getOfflineResponse Question) = ''Bu k''"
  "take 4 (getOfflineResponse Explanation) = ''Bu s''"
  "take 4 (getOfflineResponse Image) = ''Bu r''"
  by simp_all

lemma getOfflineResponse_distinct:
  "a \<noteq> b \<Longrightarrow> getOfflineResponse a \<noteq> getOfflineResponse b"
proof
  assume "a \<noteq> b" and "getOfflineResponse a = getOfflineResponse b"
  then have "take 4 (getOfflineResponse a) = take 4 (getOfflineResponse b)" by simp
  with \<open>a \<noteq> b\<close> show False
    by (cases a; cases b) (simp_all only: offline_prefixes, simp_all)
qed

declare getOfflineResponse.simps [simp del]

lemma sublist_skip_left: "sublist xs ys \<Longrightarrow> sublist xs (ps @ ys)"
  unfolding sublist_def by (metis append.assoc)

lemma explanation_fallback_mentions:
  "str_includes (explanation_fallback ua ca) ua \<and> str_includes (explanation_fallback ua ca) ca"
  unfolding str_includes_sublist explanation_fallback_def
  by (rule conjI; (rule sublist_appendI | rule sublist_skip_left)+)

lemma placeholder_timestamps:
  "length placeholder_questions = 3 \<and> map timestamp placeholder_questions = [30, 120, 300]"
  by (simp add: placeholder_questions_def)

text \<open>
  Claim C4. The claim asks that each of the four operations resolves with its offline text
  when the retries end on a rate-limit error. At such an input (every attempt fails with a
  message containing 429) \<open>generateText\<close>, \<open>analyzeImage\<close> and \<open>generateAIExplanation\<close> do
  resolve with the texts of \<open>Chat\<close>, \<open>Image\<close> and \<open>Explanation\<close>, but
  \<open>generateQuestionFromContent\<close> rejects with the error: its \<open>catch\<close> never consults
  \<open>getOfflineResponse Question\<close>.
\<close>

theorem generateQuestionFromContent_rejects_rate_limit:
  "generateQuestionFromContent parse
     (\<lambda>i. Rejected (Error (Some ''[429] quota exceeded''))) content subject
     = Rejected (Error (Some ''[429] quota exceeded''))
   \<and> generateText (\<lambda>i. Rejected (Error (Some ''[429] quota exceeded'')))
     = Resolved (Defined (getOfflineResponse Chat))
   \<and> analyzeImage (\<lambda>i. Rejected (Error (Some ''[429] quota exceeded'')))
     = Resolved (Defined (getOfflineResponse Image))
   \<and> generateAIExplanation (\<lambda>i. Rejected (Error (Some ''[429] quota exceeded'')))
       question_text option_texts correct_answer user_answer
     = Resolved (Defined (getOfflineResponse Explanation))"
proof -
  let ?model = "\<lambda>i::nat. Rejected (Error (Some ''[429] quota exceeded'')) :: string settled"
  have "fst (retryWithBackoff ?model maxRetries_default)
          = Rejected (Error (Some ''[429] quota exceeded''))"
    using retry_default_result [of 2 ?model]
    by (simp add: maxRetries_default_def settle_defined_def rate_limited_def
        message_includes_def)
  then show ?thesis
    by (simp add: generateQuestionFromContent_def generateText_def analyzeImage_def
        generateAIExplanation_def message_includes_def)
qed

text \<open>
  Claim C8. A quiz-generation call whose model output cannot be parsed: some attempt \<open>k\<close>
  of the (at most 3) attempts returns a text, the earlier ones having failed rate-limited,
  and \<open>JSON.parse\<close> throws on that text. The handle then resolves with exactly the literal
  array of 3 questions, whose timestamps are 30, 120 and 300.
\<close>

theorem generateQuestionFromContent_parse_failure:
  assumes "k < maxRetries_default" and "\<forall>i<k. rate_limited (model i)"
    and "model k = Resolved text" and "parse text = None"
  shows "generateQuestionFromContent parse model content subject
      = Resolved (Questions placeholder_questions)
    \<and> length placeholder_questions = 3
    \<and> map timestamp placeholder_questions = [30, 120, 300]"
proof -
  have "\<not> rate_limited (model k)"
    using assms(3) by (simp add: rate_limited_def)
  then have "fst (retryWithBackoff model maxRetries_default) = Resolved (Defined text)"
    using retry_default_result [of k model] assms(1-3) by (simp add: settle_defined_def)
  then show ?thesis
    using assms(4) placeholder_timestamps
    by (simp add: generateQuestionFromContent_def JSON_parse_def)
qed

theorem generateQuestionFromContent_parse_failure_witness:
  "generateQuestionFromContent (\<lambda>s. if s = ''[]'' then Some () else None)
     (\<lambda>i. Resolved ''Here are your questions!'') ''Photosynthesis'' ''Biology''
     = Resolved (Questions placeholder_questions)
   \<and> length placeholder_questions = 3
   \<and> map timestamp placeholder_questions = [30, 120, 300]"
  using generateQuestionFromContent_parse_failure
    [of 0 "\<lambda>i. Resolved ''Here are your questions!''" "''Here are your questions!''"
        "\<lambda>s. if s = ''[]'' then Some () else None" "''Photosynthesis''" "''Biology''"]
  by (simp add: maxRetries_default_def)

text \<open>
  Claim C9, as amended. An explanation-generation call never rejects. With \<open>k\<close> the
  deciding attempt of the retry wrapper, the handle resolves with the model's text when
  attempt \<open>k\<close> succeeded; with the offline text of \<open>Explanation\<close> when it failed with a
  message containing 429 or quota; and with the canned fallback, which contains the
  learner's answer and the correct answer, when it failed with any other error.
\<close>

theorem generateAIExplanation_always_resolves:
  assumes "k < maxRetries_default" and "\<forall>i<k. rate_limited (model i)"
    and "k = maxRetries_default - 1 \<or> \<not> rate_limited (model k)"
  shows "generateAIExplanation model question_text option_texts correct_answer user_answer =
      (case model k of
         Resolved text \<Rightarrow> Resolved (Defined text)
       | Rejected error \<Rightarrow>
           if message_includes error ''429'' \<or> message_includes error ''quota''
           then Resolved (Defined (getOfflineResponse Explanation))
           else Resolved (Defined (explanation_fallback user_answer correct_answer)))
    \<and> (\<forall>error. generateAIExplanation model question_text option_texts correct_answer
          user_answer \<noteq> Rejected error)
    \<and> str_includes (explanation_fallback user_answer correct_answer) user_answer
    \<and> str_includes (explanation_fallback user_answer correct_answer) correct_answer"
proof -
  have "fst (retryWithBackoff model maxRetries_default) = settle_defined (model k)"
    using assms by (rule retry_default_result)
  then show ?thesis
    using explanation_fallback_mentions [of user_answer correct_answer]
    by (simp add: generateAIExplanation_def settle_defined_def split: settled.splits)
qed

theorem generateAIExplanation_always_resolves_witness:
  "generateAIExplanation
     (\<lambda>i. if i = 0 then Rejected (Error (Some ''[429] Too Many Requests''))
          else Rejected (Error (Some ''daily quota exhausted'')))
     ''2 + 2 = ?'' [''3'', ''4''] ''4'' ''3''
   = Resolved (Defined (getOfflineResponse Explanation))"
  using generateAIExplanation_always_resolves
    [of 1 "\<lambda>i. if i = 0 then Rejected (Error (Some ''[429] Too Many Requests''))
                else Rejected (Error (Some ''daily quota exhausted''))"
        "''2 + 2 = ?''" "[''3'', ''4'']" "''4''" "''3''"]
  by (simp add: maxRetries_default_def rate_limited_def message_includes_def)

text \<open>
  The claim as stated fails: an error that is not classified as rate-limit or quota does
  not reject the handle, it resolves it with the canned fallback.
\<close>

theorem generateAIExplanation_other_error_resolves:
  "\<not> message_includes (Error (Some ''Failed to fetch'')) ''429''
   \<and> \<not> message_includes (Error (Some ''Failed to fetch'')) ''quota''
   \<and> generateAIExplanation (\<lambda>i. Rejected (Error (Some ''Failed to fetch'')))
        ''2 + 2 = ?'' [''3'', ''4''] ''4'' ''3''
      = Resolved (Defined (explanation_fallback ''3'' ''4''))
   \<and> generateAIExplanation (\<lambda>i. Rejected (Error (Some ''Failed to fetch'')))
        ''2 + 2 = ?'' [''3'', ''4''] ''4'' ''3''
      \<noteq> Rejected (Error (Some ''Failed to fetch''))"
proof -
  let ?model = "\<lambda>i::nat. Rejected (Error (Some ''Failed to fetch'')) :: string settled"
  have "fst (retryWithBackoff ?model maxRetries_default)
          = Rejected (Error (Some ''Failed to fetch''))"
    using retry_default_result [of 0 ?model]
    by (simp add: maxRetries_default_def settle_defined_def rate_limited_def
        message_includes_def)
  then show ?thesis
    by (simp add: generateAIExplanation_def message_includes_def)
qed

section \<open>Properties of the request queue\<close>

lemma module_run_fold: "module_run evs = fold module_step evs initial_gateway"
  by (simp add: module_run_def)

lemma drain_inv_initial: "drain_inv initial_gateway"
  unfolding drain_inv_def initial_gateway_def by (rule exI [of _ "[]"]) simp

lemma drain_inv_addToQueue: "drain_inv g \<Longrightarrow> drain_inv (addToQueue request g)"
proof (cases "phase g")
  case Idle
  assume "drain_inv g"
  with Idle obtain finished where
    "trace g = concat (map cycle finished)" "requestQueue g = []" "\<not> isProcessing g"
    by (auto simp: drain_inv_def)
  then show ?thesis
    unfolding drain_inv_def addToQueue_def processQueue_def drain_loop_def
    by (intro exI [of _ finished]) simp
next
  case (AwaitingRequest r)
  assume "drain_inv g"
  with AwaitingRequest show ?thesis
    by (simp add: drain_inv_def addToQueue_def processQueue_def)
next
  case AwaitingDelay
  assume "drain_inv g"
  with AwaitingDelay show ?thesis
    by (simp add: drain_inv_def addToQueue_def processQueue_def)
qed

lemma drain_inv_returns: "drain_inv g \<Longrightarrow> drain_inv (request_settles (Returned b) g)"
proof (cases "phase g")
  case (AwaitingRequest r)
  assume "drain_inv g"
  with AwaitingRequest obtain finished where
    "trace g = concat (map cycle finished) @ [Called r]" "isProcessing g"
    by (auto simp: drain_inv_def)
  with AwaitingRequest show ?thesis
    unfolding drain_inv_def request_settles_def
    by (intro exI [of _ finished]) simp
qed (simp_all add: request_settles_def)

lemma drain_inv_timer_fires: "drain_inv g \<Longrightarrow> drain_inv (timer_fires g)"
proof (cases "phase g")
  case AwaitingDelay
  assume "drain_inv g"
  with AwaitingDelay obtain finished r b where
    tr: "trace g = concat (map cycle finished) @
           [Called r, Settled r (Returned b), TimerSet RATE_LIMIT_DELAY]"
    and proc: "isProcessing g"
    by (auto simp: drain_inv_def)
  have "trace g @ [TimerFired] = concat (map cycle (finished @ [(r, b)]))"
    using tr by simp
  with AwaitingDelay proc show ?thesis
    unfolding drain_inv_def timer_fires_def drain_loop_def
    by (intro exI [of _ "finished @ [(r, b)]"]) (simp split: list.splits)
qed (simp_all add: timer_fires_def)

lemma drain_inv_step: "drain_inv g \<Longrightarrow> drain_inv (module_step e g)"
  by (cases e)
     (simp_all add: module_step_def drain_inv_addToQueue drain_inv_returns drain_inv_timer_fires)

lemma drain_inv_fold: "drain_inv g \<Longrightarrow> drain_inv (fold module_step evs g)"
  by (induction evs arbitrary: g) (simp_all add: drain_inv_step)

lemma serial_cycle: "serial (cycle x @ rest) = serial rest"
  by (cases x) simp

lemma serial_cycles:
  "serial (concat (map cycle finished) @ rest) = serial rest"
  by (induction finished) (simp_all add: serial_cycle del: cycle.simps)

lemma drain_inv_serial: "drain_inv g \<Longrightarrow> serial (trace g)"
  unfolding drain_inv_def
  by (cases "phase g") (auto simp: serial_cycles serial_cycles [where rest = "[]", simplified])

lemma drain_inv_idle: "drain_inv g \<Longrightarrow> phase g = Idle \<Longrightarrow> requestQueue g = [] \<and> \<not> isProcessing g"
  by (auto simp: drain_inv_def)

lemma drain_inv_busy: "drain_inv g \<Longrightarrow> phase g \<noteq> Idle \<Longrightarrow> isProcessing g"
  by (cases "phase g") (auto simp: drain_inv_def)

lemma called_append: "called (xs @ ys) = called xs @ called ys"
  by (induction xs rule: called.induct) simp_all

lemma submitted_append: "submitted (xs @ ys) = submitted xs @ submitted ys"
  by (induction xs rule: submitted.induct) simp_all

lemma fifo_drain_loop:
  "called (trace (drain_loop g)) @ requestQueue (drain_loop g)
     = called (trace g) @ requestQueue g"
  by (simp add: drain_loop_def called_append split: list.splits)

lemma fifo_step:
  "called (trace (module_step e g)) @ requestQueue (module_step e g)
     = called (trace g) @ requestQueue g @ submitted [e]"
proof (cases e)
  case (OperationCalled request)
  then show ?thesis
    using fifo_drain_loop [of "g\<lparr>requestQueue := requestQueue g @ [request], isProcessing := True\<rparr>"]
    by (simp add: module_step_def addToQueue_def processQueue_def)
next
  case (ClosureReturns b)
  then show ?thesis
    by (cases "phase g") (simp_all add: module_step_def request_settles_def called_append)
next
  case DelayElapses
  show ?thesis
  proof (cases "phase g")
    case AwaitingDelay
    with DelayElapses show ?thesis
      using fifo_drain_loop [of "g\<lparr>trace := trace g @ [TimerFired]\<rparr>"]
      by (simp add: module_step_def timer_fires_def called_append)
  qed (simp_all add: DelayElapses module_step_def timer_fires_def)
qed

lemma fifo_fold:
  "called (trace (fold module_step evs g)) @ requestQueue (fold module_step evs g)
     = called (trace g) @ requestQueue g @ submitted evs"
proof (induction evs arbitrary: g)
  case Nil
  show ?case by simp
next
  case (Cons e evs)
  have "submitted (e # evs) = submitted [e] @ submitted evs"
    using submitted_append [of "[e]" evs] by simp
  with Cons [of "module_step e g"] fifo_step [of e g] show ?case
    by simp
qed

lemma submitted_rounds: "submitted (rounds outcomes) = []"
  by (induction outcomes) simp_all

lemma rounds_idle:
  "phase g = Idle \<Longrightarrow> fold module_step (rounds outcomes) g = g"
  by (induction outcomes) (simp_all add: module_step_def request_settles_def timer_fires_def)

lemma rounds_drain:
  "drain_inv g \<Longrightarrow> length (requestQueue g) < length outcomes \<Longrightarrow>
   phase (fold module_step (rounds outcomes) g) = Idle"
proof (induction outcomes arbitrary: g)
  case Nil
  then show ?case by simp
next
  case (Cons b outcomes)
  let ?g = "module_step DelayElapses (module_step (ClosureReturns b) g)"
  note prems = Cons.prems and IH = Cons.IH
  have inv: "drain_inv ?g" using prems(1) by (intro drain_inv_step)
  show ?case
  proof (cases "phase g = Idle")
    case True
    then show ?thesis using rounds_idle [of g "b # outcomes"] by simp
  next
    case False
    show ?thesis
    proof (cases "requestQueue g")
      case Nil
      with False have "phase ?g = Idle"
        by (cases "phase g")
           (simp_all add: module_step_def request_settles_def timer_fires_def drain_loop_def)
      then show ?thesis using rounds_idle [of ?g outcomes] by simp
    next
      case (Cons r rest)
      with False have "requestQueue ?g = rest"
        by (cases "phase g")
           (simp_all add: module_step_def request_settles_def timer_fires_def drain_loop_def)
      with Cons prems(2) have "length (requestQueue ?g) < length outcomes" by simp
      from IH [OF inv this] show ?thesis by simp
    qed
  qed
qed

text \<open>
  Claim C2. For every run of the module, whatever the order in which operations are
  called, closures return and delays elapse: the closures are called in the order of
  their submission (those called so far, followed by the queue, are the submitted ones in
  order); no closure is called before the one called before it has ended; after every
  closure, whether its work succeeded or failed, the drain waits the fixed 1000 ms and
  calls the next only once that timer has fired. The drain is never idle while closures
  wait, and once the closure in flight and the queued ones have each returned and had
  their delay, every submitted closure has been called.
\<close>

theorem gateway_drain_fifo_delayed:
  "called (trace (module_run evs)) @ requestQueue (module_run evs) = submitted evs
   \<and> serial (trace (module_run evs))
   \<and> (requestQueue (module_run evs) \<noteq> [] \<longrightarrow> phase (module_run evs) \<noteq> Idle)
   \<and> (length (requestQueue (module_run evs)) < length outcomes \<longrightarrow>
        called (trace (module_run (evs @ rounds outcomes))) = submitted evs
        \<and> phase (module_run (evs @ rounds outcomes)) = Idle)"
proof -
  have inv: "drain_inv (module_run evs)"
    unfolding module_run_fold by (rule drain_inv_fold [OF drain_inv_initial])
  have fifo: "called (trace (module_run evs)) @ requestQueue (module_run evs) = submitted evs"
    unfolding module_run_fold using fifo_fold [of evs initial_gateway]
    by (simp add: initial_gateway_def)
  have ext: "module_run (evs @ rounds outcomes)
      = fold module_step (rounds outcomes) (module_run evs)"
    by (simp add: module_run_fold)
  have finish: "called (trace (module_run (evs @ rounds outcomes))) = submitted evs
      \<and> phase (module_run (evs @ rounds outcomes)) = Idle"
    if "length (requestQueue (module_run evs)) < length outcomes"
  proof -
    have idle: "phase (module_run (evs @ rounds outcomes)) = Idle"
      unfolding ext using inv that by (rule rounds_drain)
    have "drain_inv (module_run (evs @ rounds outcomes))"
      unfolding module_run_fold by (rule drain_inv_fold [OF drain_inv_initial])
    with idle have "requestQueue (module_run (evs @ rounds outcomes)) = []"
      using drain_inv_idle by blast
    moreover have "called (trace (module_run (evs @ rounds outcomes)))
        @ requestQueue (module_run (evs @ rounds outcomes)) = submitted evs"
      unfolding module_run_fold using fifo_fold [of "evs @ rounds outcomes" initial_gateway]
      by (simp add: initial_gateway_def submitted_append submitted_rounds)
    ultimately show ?thesis using idle by simp
  qed
  show ?thesis
    using fifo drain_inv_serial [OF inv] drain_inv_idle [OF inv] finish by auto
qed

theorem gateway_drain_fifo_delayed_witness:
  "submitted [OperationCalled 1, OperationCalled 2, ClosureReturns False, OperationCalled 3,
      DelayElapses, ClosureReturns True] = [1, 2, 3]
   \<and> trace (module_run [OperationCalled 1, OperationCalled 2, ClosureReturns False,
      OperationCalled 3, DelayElapses, ClosureReturns True])
     = [Called 1, Settled 1 (Returned False), TimerSet 1000, TimerFired,
        Called 2, Settled 2 (Returned True), TimerSet 1000]
   \<and> requestQueue (module_run [OperationCalled 1, OperationCalled 2, ClosureReturns False,
      OperationCalled 3, DelayElapses, ClosureReturns True]) = [3]
   \<and> called (trace (module_run ([OperationCalled 1, OperationCalled 2, ClosureReturns False,
      OperationCalled 3, DelayElapses, ClosureReturns True] @ rounds [True, False])))
     = [1, 2, 3]"
  using gateway_drain_fifo_delayed [of "[OperationCalled 1, OperationCalled 2,
      ClosureReturns False, OperationCalled 3, DelayElapses, ClosureReturns True]"
      "[True, False]"]
  by (simp add: module_run_def module_step_def initial_gateway_def addToQueue_def
      processQueue_def drain_loop_def request_settles_def timer_fires_def RATE_LIMIT_DELAY_def)

section \<open>Properties of the question scheduler\<close>

lemmas demo_defs = demo_q30_def demo_q31_def demo_q120_def demo_questions_def demo_player_def

lemmas early_defs = early_q0_def early_q1_def early_questions_def early_check_def
  early_selected_def early_answered_def

lemma question_due_first:
  "(question_due qs P modal_shown = Some Q) = (\<not> modal_shown \<and> first_within_tolerance qs P Q)"
proof -
  have "(question_due qs P modal_shown = Some Q) =
      (\<not> modal_shown \<and> find (\<lambda>q. within_tolerance (timestamp q) P) qs = Some Q)"
    by (auto simp: question_due_def split: option.splits)
  then show ?thesis
    unfolding find_Some_iff first_within_tolerance_def by blast
qed

text \<open>
  Claim C1, as amended. For the periodic check of the lesson page, installed while no
  modal is shown (as when the lesson first arrives), and the position \<open>P\<close> it samples:
  while no question is active, \<open>Q\<close> becomes the active question if and only if \<open>Q\<close> is the
  first question in list order with \<open>|Q.timestamp - P| < 2\<close>, whether or not \<open>Q\<close> was
  answered before (the page keeps no record of answers). The test is the code's, on
  doubles: in exact terms it is \<open>|Q.timestamp - P| < 2 - 2^-53\<close>.
\<close>

theorem question_activation_rule:
  assumes "\<not> closure_showQuestionModal c"
  shows "(page_modals s = [] \<longrightarrow>
        (page_modals (installed_check (Some qs) c s) = [Q])
          = first_within_tolerance qs (closure_videoProgress c) Q)
    \<and> within_tolerance t P = (\<bar>t - P\<bar> < 2 - 1 / 2 ^ 53)"
proof -
  let ?P = "closure_videoProgress c"
  have due: "(question_due qs ?P (closure_showQuestionModal c) = Some Q') =
      first_within_tolerance qs ?P Q'" for Q'
    using assms by (simp add: question_due_first)
  have run: "installed_check (Some qs) c s =
      (case question_due qs ?P (closure_showQuestionModal c) of
         Some q \<Rightarrow> s\<lparr>currentQuestion := Some q, showQuestionModal := True,
                     isVideoPlaying := False\<rparr>
       | None \<Rightarrow> s)"
    by (simp add: installed_check_def question_check_def)
  have first: "page_modals s = [] \<longrightarrow>
        (page_modals (installed_check (Some qs) c s) = [Q]) = first_within_tolerance qs ?P Q"
  proof (cases "question_due qs ?P (closure_showQuestionModal c)")
    case None
    then have "\<not> first_within_tolerance qs ?P Q" using due [of Q] by simp
    with None run show ?thesis by simp
  next
    case (Some q)
    then have "first_within_tolerance qs ?P Q \<longleftrightarrow> q = Q" using due [of Q] by auto
    with Some run show ?thesis by (auto simp: page_modals_def)
  qed
  show ?thesis
    using first within_tolerance_iff [of t P] by simp
qed

text \<open>
  The page's own check, firing on the initial page of the lesson with questions at 0 s,
  1 s and 120 s, activates the question at 0 s.
\<close>

theorem question_activation_rule_witness:
  "page_modals (early_check initial_page) = [early_q0]
   \<and> first_within_tolerance early_questions 0 early_q0
   \<and> \<not> within_tolerance 2 (1 / 2 ^ 54)"
  using question_activation_rule [of "startQuestionCheck initial_page" initial_page
      early_questions early_q0 2 "1 / 2 ^ 54"]
  by (simp add: startQuestionCheck_def initial_page_def page_modals_def installed_check_def
      question_check_def question_due_def within_tolerance_iff early_defs demo_q120_def)

text \<open>
  The claim as stated fails in two ways, both on the page as it starts: the sampled
  position is \<open>videoProgress\<close>, 0, and the lesson has questions at 0 s, 1 s and 120 s.
  The question at 1 s is within tolerance of the position, was never answered, and no
  question is active; yet the check activates the question at 0 s, not this one. And once
  the question at 0 s has been answered correctly and the modal closed, the next check
  activates it again.
\<close>

theorem question_activation_counterexample:
  "early_q1 \<in> set early_questions
   \<and> \<bar>timestamp early_q1 - videoProgress initial_page\<bar> < 2
   \<and> within_tolerance (timestamp early_q1) (videoProgress initial_page)
   \<and> page_modals initial_page = []
   \<and> page_modals (early_check initial_page) = [early_q0]
   \<and> early_q0 \<noteq> early_q1
   \<and> page_modals early_selected = [early_q0]
   \<and> selectedAnswer early_selected = correctAnswer early_q0
   \<and> snd early_answered = [Toast (ToastSuccess toast_correct_page)]
   \<and> page_modals (closeQuestionModal (fst early_answered)) = []
   \<and> page_modals (early_check (closeQuestionModal (fst early_answered))) = [early_q0]"
  by (simp add: early_defs demo_q120_def initial_page_def startQuestionCheck_def
      installed_check_def question_check_def question_due_def within_tolerance_iff
      page_modals_def handleAnswerSubmit_def select_option_def closeQuestionModal_def)


lemma questionToShow_unanswered:
  "questionToShow questions answered position = Some q \<Longrightarrow> id_q q \<notin> set answered"
  unfolding questionToShow_def Let_def by (auto dest: find_Some_iff [THEN iffD1])

lemma active_unanswered_step:
  "active_unanswered s \<Longrightarrow> active_unanswered (player_step questions url e s)"
proof (cases e)
  case (IntervalCheck position)
  assume "active_unanswered s"
  with IntervalCheck show ?thesis
    by (auto simp: active_unanswered_def interval_check_def
        dest: questionToShow_unanswered split: option.splits)
next
  case (Answer isCorrect)
  then show ?thesis
    by (simp add: active_unanswered_def handleAnswer_def split: option.splits)
next
  case ModalClose
  then show ?thesis by (simp add: active_unanswered_def modal_close_def)
next
  case TogglePlay
  assume "active_unanswered s"
  with TogglePlay show ?thesis
    by (simp add: active_unanswered_def togglePlay_def split: option.splits)
next
  case Seek
  assume "active_unanswered s"
  with Seek show ?thesis
    by (simp add: active_unanswered_def handleSeek_def split: option.splits)
qed

text \<open>Every state that a session reaches from a state without an active question.\<close>

lemma active_unanswered_run:
  "activeQuestion s = None \<Longrightarrow> active_unanswered (player_run questions url evs s)"
proof -
  have "active_unanswered s' \<Longrightarrow> active_unanswered (fold (player_step questions url) evs s')"
    for s'
    by (induction evs arbitrary: s') (simp_all add: active_unanswered_step)
  moreover assume "activeQuestion s = None"
  then have "active_unanswered s" by (simp add: active_unanswered_def)
  ultimately show ?thesis by (simp add: player_run_def)
qed

lemma answered_inv_step:
  assumes "answered_inv i s" and "e \<noteq> Answer False"
  shows "answered_inv i (player_step questions url e s)"
proof (cases e)
  case (IntervalCheck position)
  have "count_list (answeredQuestions s) i = 1"
    using assms(1) by (simp add: answered_inv_def)
  then have "i \<in> set (answeredQuestions s)"
    by (metis count_list_0_iff zero_neq_one)
  then have "id_q q \<noteq> i" if "questionToShow questions (answeredQuestions s) position = Some q" for q
    using questionToShow_unanswered [OF that] by auto
  with assms(1) IntervalCheck show ?thesis
    by (auto simp: answered_inv_def interval_check_def split: option.splits)
next
  case (Answer isCorrect)
  with assms(2) have "isCorrect" by auto
  with assms(1) Answer show ?thesis
    by (auto simp: answered_inv_def handleAnswer_def split: option.splits)
next
  case ModalClose
  with assms(1) show ?thesis by (simp add: answered_inv_def modal_close_def)
next
  case TogglePlay
  with assms(1) show ?thesis by (simp add: answered_inv_def togglePlay_def)
next
  case Seek
  with assms(1) show ?thesis by (simp add: answered_inv_def handleSeek_def)
qed

lemma answered_inv_run:
  "answered_inv i s \<Longrightarrow> Answer False \<notin> set evs \<Longrightarrow>
   answered_inv i (player_run questions url evs s)"
  unfolding player_run_def
  by (induction evs arbitrary: s) (auto simp: answered_inv_step)

text \<open>
  Claim C6, as amended. On the lesson page a correct answer of a signed-in learner only
  shows the success toast: no id is recorded (the page keeps no answered set), and the
  modal stays open, with playback as it was, until the learner closes the modal, which
  resumes playback; after that the periodic check activates the same question again
  whenever it is the first one within tolerance of the sampled position. In the video
  player's handler, answering the active question correctly appends its id to the
  answered list, closes the modal and resumes playback. When the id was not in the list
  before (so it is in every state a session reaches, by \<open>active_unanswered_run\<close>), then
  after any further events that contain no wrong answer the id is in the list exactly
  once and no question with that id is active: the interval check does not activate it
  again, wherever the position goes, for as long as the id stays in the list.
\<close>

theorem correct_answer_not_retriggered:
  "(currentQuestion p = Some pq \<and> selectedAnswer p = correctAnswer pq
      \<and> selectedAnswer p \<noteq> [] \<and> userId = Some uid \<and> uid \<noteq> [] \<longrightarrow>
      handleAnswerSubmit model userId lessonId p =
        (p\<lparr>isAnswering := False\<rparr>, [Toast (ToastSuccess toast_correct_page)])
      \<and> page_modals (fst (handleAnswerSubmit model userId lessonId p)) = page_modals p
      \<and> isVideoPlaying (fst (handleAnswerSubmit model userId lessonId p)) = isVideoPlaying p
      \<and> page_modals (closeQuestionModal (fst (handleAnswerSubmit model userId lessonId p))) = []
      \<and> isVideoPlaying (closeQuestionModal (fst (handleAnswerSubmit model userId lessonId p)))
      \<and> (\<not> closure_showQuestionModal c
            \<and> first_within_tolerance qs (closure_videoProgress c) pq \<longrightarrow>
          page_modals (installed_check (Some qs) c
            (closeQuestionModal (fst (handleAnswerSubmit model userId lessonId p)))) = [pq]))
   \<and> (activeQuestion s = Some q \<longrightarrow>
        fst (handleAnswer url True s) =
          s\<lparr>answeredQuestions := answeredQuestions s @ [id_q q], activeQuestion := None,
            isPlaying := True\<rparr>
        \<and> player_modals (fst (handleAnswer url True s)) = [])
   \<and> (activeQuestion s = Some q \<and> id_q q \<notin> set (answeredQuestions s)
        \<and> Answer False \<notin> set evs \<longrightarrow>
        count_list (answeredQuestions (player_run questions url evs
            (fst (handleAnswer url True s)))) (id_q q) = 1
        \<and> (\<forall>a. activeQuestion (player_run questions url evs (fst (handleAnswer url True s)))
              = Some a \<longrightarrow> id_q a \<noteq> id_q q))"
proof -
  let ?s = "fst (handleAnswer url True s)"
  let ?p = "fst (handleAnswerSubmit model userId lessonId p)"
  have page: "handleAnswerSubmit model userId lessonId p =
          (p\<lparr>isAnswering := False\<rparr>, [Toast (ToastSuccess toast_correct_page)])"
    if "currentQuestion p = Some pq \<and> selectedAnswer p = correctAnswer pq
          \<and> selectedAnswer p \<noteq> [] \<and> userId = Some uid \<and> uid \<noteq> []"
    using that by (auto simp: handleAnswerSubmit_def)
  have closed: "page_modals (closeQuestionModal x) = [] \<and> isVideoPlaying (closeQuestionModal x)"
    for x
    by (simp add: closeQuestionModal_def page_modals_def)
  have again: "page_modals (installed_check (Some qs) c (closeQuestionModal x)) = [pq]"
    if "\<not> closure_showQuestionModal c \<and> first_within_tolerance qs (closure_videoProgress c) pq"
    for x
    using that
      question_due_first [of qs "closure_videoProgress c" "closure_showQuestionModal c" pq]
    by (auto simp: installed_check_def question_check_def page_modals_def)
  have on_page: "currentQuestion p = Some pq \<and> selectedAnswer p = correctAnswer pq
      \<and> selectedAnswer p \<noteq> [] \<and> userId = Some uid \<and> uid \<noteq> [] \<longrightarrow>
      handleAnswerSubmit model userId lessonId p =
        (p\<lparr>isAnswering := False\<rparr>, [Toast (ToastSuccess toast_correct_page)])
      \<and> page_modals ?p = page_modals p
      \<and> isVideoPlaying ?p = isVideoPlaying p
      \<and> page_modals (closeQuestionModal ?p) = []
      \<and> isVideoPlaying (closeQuestionModal ?p)
      \<and> (\<not> closure_showQuestionModal c
            \<and> first_within_tolerance qs (closure_videoProgress c) pq \<longrightarrow>
          page_modals (installed_check (Some qs) c (closeQuestionModal ?p)) = [pq])"
  proof
    assume hyps: "currentQuestion p = Some pq \<and> selectedAnswer p = correctAnswer pq
      \<and> selectedAnswer p \<noteq> [] \<and> userId = Some uid \<and> uid \<noteq> []"
    have same: "page_modals ?p = page_modals p \<and> isVideoPlaying ?p = isVideoPlaying p"
      by (simp add: page [OF hyps] page_modals_def)
    show "handleAnswerSubmit model userId lessonId p =
        (p\<lparr>isAnswering := False\<rparr>, [Toast (ToastSuccess toast_correct_page)])
      \<and> page_modals ?p = page_modals p
      \<and> isVideoPlaying ?p = isVideoPlaying p
      \<and> page_modals (closeQuestionModal ?p) = []
      \<and> isVideoPlaying (closeQuestionModal ?p)
      \<and> (\<not> closure_showQuestionModal c
            \<and> first_within_tolerance qs (closure_videoProgress c) pq \<longrightarrow>
          page_modals (installed_check (Some qs) c (closeQuestionModal ?p)) = [pq])"
      using page [OF hyps] same closed [of ?p] again [of ?p] by blast
  qed
  have handler: "activeQuestion s = Some q \<longrightarrow>
        ?s = s\<lparr>answeredQuestions := answeredQuestions s @ [id_q q], activeQuestion := None,
            isPlaying := True\<rparr>
        \<and> player_modals ?s = []"
    by (simp add: handleAnswer_def player_modals_def)
  have later: "activeQuestion s = Some q \<and> id_q q \<notin> set (answeredQuestions s)
        \<and> Answer False \<notin> set evs \<longrightarrow>
        count_list (answeredQuestions (player_run questions url evs ?s)) (id_q q) = 1
        \<and> (\<forall>a. activeQuestion (player_run questions url evs ?s) = Some a
              \<longrightarrow> id_q a \<noteq> id_q q)"
  proof
    assume hyps: "activeQuestion s = Some q \<and> id_q q \<notin> set (answeredQuestions s)
        \<and> Answer False \<notin> set evs"
    then have upd: "?s = s\<lparr>answeredQuestions := answeredQuestions s @ [id_q q],
        activeQuestion := None, isPlaying := True\<rparr>"
      by (simp add: handleAnswer_def)
    have "count_list (answeredQuestions s) (id_q q) = 0"
      using hyps by (simp add: count_list_0_iff)
    then have "answered_inv (id_q q) ?s"
      by (simp add: upd answered_inv_def)
    moreover have "Answer False \<notin> set evs" using hyps by simp
    ultimately have "answered_inv (id_q q) (player_run questions url evs ?s)"
      by (rule answered_inv_run)
    then show "count_list (answeredQuestions (player_run questions url evs ?s)) (id_q q) = 1
        \<and> (\<forall>a. activeQuestion (player_run questions url evs ?s) = Some a
              \<longrightarrow> id_q a \<noteq> id_q q)"
      by (auto simp: answered_inv_def)
  qed
  from on_page handler later show ?thesis by blast
qed

text \<open>
  On the page, the learner answers the question at 0 s correctly, closes the modal and
  sees it again. In the player, the question at 30 s is answered correctly, the position
  then passes 29, 30 and 31 s, the question at 31 s is answered correctly, the learner
  seeks, and the position passes 30 and 31 s again: both ids are in the list once and no
  question is active.
\<close>

theorem correct_answer_not_retriggered_witness:
  "snd early_answered = [Toast (ToastSuccess toast_correct_page)]
   \<and> page_modals (fst early_answered) = [early_q0]
   \<and> isVideoPlaying (closeQuestionModal (fst early_answered))
   \<and> page_modals (early_check (closeQuestionModal (fst early_answered))) = [early_q0]
   \<and> player_modals (fst (handleAnswer ''u'' True (interval_check demo_questions 30 demo_player)))
      = []
   \<and> answeredQuestions (player_run demo_questions ''u''
        [IntervalCheck 29, IntervalCheck 30, IntervalCheck 31, Answer True, Seek,
         IntervalCheck 30, IntervalCheck 31]
        (fst (handleAnswer ''u'' True (interval_check demo_questions 30 demo_player))))
      = [''a'', ''b'']
   \<and> activeQuestion (player_run demo_questions ''u''
        [IntervalCheck 29, IntervalCheck 30, IntervalCheck 31, Answer True, Seek,
         IntervalCheck 30, IntervalCheck 31]
        (fst (handleAnswer ''u'' True (interval_check demo_questions 30 demo_player))))
      = None"
  using correct_answer_not_retriggered [where s = "interval_check demo_questions 30 demo_player"
      and q = demo_q30 and evs = "[IntervalCheck 29, IntervalCheck 30, IntervalCheck 31,
         Answer True, Seek, IntervalCheck 30, IntervalCheck 31]" and url = "''u''"
      and questions = demo_questions
      and p = early_selected and pq = early_q0
      and userId = "Some ''user-1''" and uid = "''user-1''"
      and model = "\<lambda>i. Resolved ''Because 1 + 1 = 2.''" and lessonId = "Some ''lesson-1''"
      and c = "startQuestionCheck initial_page" and qs = early_questions]
  by (simp add: demo_defs early_defs player_run_def player_modals_def interval_check_def
      questionToShow_def handleAnswer_def handleSeek_def initial_page_def
      startQuestionCheck_def installed_check_def question_check_def question_due_def
      within_tolerance_iff page_modals_def handleAnswerSubmit_def select_option_def
      closeQuestionModal_def first_within_tolerance_def)

text \<open>
  The claim as stated fails on the page, at the start of the lesson with questions at
  0 s, 1 s and 120 s. The check opens the question at 0 s and the signed-in learner
  submits its correct answer: the handler shows the success toast and nothing else, the
  modal is still open and playback still paused. The learner closes the modal, and the
  next check activates the same question again.
\<close>

theorem correct_answer_shown_again_on_page:
  "page_modals early_selected = [early_q0]
   \<and> selectedAnswer early_selected = correctAnswer early_q0
   \<and> early_answered = (early_selected, [Toast (ToastSuccess toast_correct_page)])
   \<and> page_modals (fst early_answered) = [early_q0]
   \<and> \<not> isVideoPlaying (fst early_answered)
   \<and> page_modals (closeQuestionModal (fst early_answered)) = []
   \<and> page_modals (early_check (closeQuestionModal (fst early_answered))) = [early_q0]"
  by (simp add: early_defs demo_q120_def initial_page_def startQuestionCheck_def
      installed_check_def question_check_def question_due_def within_tolerance_iff
      page_modals_def handleAnswerSubmit_def select_option_def closeQuestionModal_def)

lemma generateAIExplanation_resolved:
  "\<exists>explanation. generateAIExplanation model question_text option_texts correct_answer
      user_answer = Resolved explanation"
proof -
  obtain k where "k < maxRetries_default" "\<forall>i<k. rate_limited (model i)"
    "k = maxRetries_default - 1 \<or> \<not> rate_limited (model k)"
    using retry_default_cases [of model] by blast
  then have "fst (retryWithBackoff model maxRetries_default) = settle_defined (model k)"
    by (rule retry_default_result)
  then show ?thesis
    by (simp add: generateAIExplanation_def settle_defined_def split: settled.splits)
qed

lemma generateAIExplanation_first_success:
  assumes "model 0 = Resolved text"
  shows "generateAIExplanation model question_text option_texts correct_answer user_answer
    = Resolved (Defined text)"
proof -
  have "fst (retryWithBackoff model maxRetries_default) = settle_defined (model 0)"
    using assms by (intro retry_default_result) (simp_all add: maxRetries_default_def rate_limited_def)
  with assms show ?thesis
    by (simp add: generateAIExplanation_def settle_defined_def)
qed

text \<open>
  Claim C7, as amended. On the lesson page, a submission with a question open, an answer
  selected that differs from the correct one, and a signed-in user (a non-empty user id)
  requests exactly one AI explanation, which always resolves, and inserts exactly one
  mistake row carrying that explanation; the modal stays open. The page has no answered
  set. In the video player a wrong answer leaves the id of the active question out of the
  answered list (the list is emptied) and only shows a toast.
\<close>

theorem incorrect_answer_explained_once:
  assumes "currentQuestion s = Some q" and "selectedAnswer s \<noteq> []"
    and "userId = Some uid" and "uid \<noteq> []"
    and "selectedAnswer s \<noteq> correctAnswer q"
  shows "(\<exists>explanation.
        generateAIExplanation model (question q) (options q) (correctAnswer q)
          (selectedAnswer s) = Resolved explanation
        \<and> handleAnswerSubmit model userId lessonId s =
          (s\<lparr>aiExplanation := explanation, showExplanation := True, isAnswering := False\<rparr>,
           [ExplanationRequest (question q) (options q) (correctAnswer q) (selectedAnswer s),
            MistakeInsert
              \<lparr>m_user_id = uid, m_lesson_id = lessonId, m_question = q,
               m_user_answer = selectedAnswer s, m_correct_answer = correctAnswer q,
               m_ai_explanation = explanation\<rparr>,
            Toast (ToastError toast_read_explanation)]))
    \<and> length (filter is_ExplanationRequest (snd (handleAnswerSubmit model userId lessonId s))) = 1
    \<and> length (filter is_MistakeInsert (snd (handleAnswerSubmit model userId lessonId s))) = 1
    \<and> page_modals (fst (handleAnswerSubmit model userId lessonId s)) = page_modals s
    \<and> (activeQuestion v = Some q' \<longrightarrow>
          id_q q' \<notin> set (answeredQuestions (fst (handleAnswer url False v)))
          \<and> snd (handleAnswer url False v) = [ToastError toast_rewind])"
proof -
  obtain explanation where ex:
    "generateAIExplanation model (question q) (options q) (correctAnswer q) (selectedAnswer s)
       = Resolved explanation"
    using generateAIExplanation_resolved by blast
  with assms have run: "handleAnswerSubmit model userId lessonId s =
      (s\<lparr>aiExplanation := explanation, showExplanation := True, isAnswering := False\<rparr>,
       [ExplanationRequest (question q) (options q) (correctAnswer q) (selectedAnswer s),
        MistakeInsert
          \<lparr>m_user_id = uid, m_lesson_id = lessonId, m_question = q,
           m_user_answer = selectedAnswer s, m_correct_answer = correctAnswer q,
           m_ai_explanation = explanation\<rparr>,
        Toast (ToastError toast_read_explanation)])"
    by (simp add: handleAnswerSubmit_def)
  have "(activeQuestion v = Some q' \<longrightarrow>
          id_q q' \<notin> set (answeredQuestions (fst (handleAnswer url False v)))
          \<and> snd (handleAnswer url False v) = [ToastError toast_rewind])"
    by (simp add: handleAnswer_def)
  with ex run show ?thesis
    by (simp add: page_modals_def)
qed

theorem incorrect_answer_explained_once_witness:
  "handleAnswerSubmit (\<lambda>i. Resolved ''Because 2 + 2 = 4.'') (Some ''user-1'')
      (Some ''lesson-1'') (select_option ''3'' (marker_click demo_q30 initial_page))
    = (select_option ''3'' (marker_click demo_q30 initial_page)
         \<lparr>aiExplanation := Defined ''Because 2 + 2 = 4.'', showExplanation := True\<rparr>,
       [ExplanationRequest ''2 + 2 = ?'' [''3'', ''4''] ''4'' ''3'',
        MistakeInsert
          \<lparr>m_user_id = ''user-1'', m_lesson_id = Some ''lesson-1'', m_question = demo_q30,
           m_user_answer = ''3'', m_correct_answer = ''4'',
           m_ai_explanation = Defined ''Because 2 + 2 = 4.''\<rparr>,
        Toast (ToastError toast_read_explanation)])"
  using incorrect_answer_explained_once
    [where s = "select_option ''3'' (marker_click demo_q30 initial_page)" and q = demo_q30
       and userId = "Some ''user-1''" and uid = "''user-1''"
       and model = "\<lambda>i. Resolved ''Because 2 + 2 = 4.''" and lessonId = "Some ''lesson-1''"]
  by (auto simp: demo_defs select_option_def marker_click_def initial_page_def
      generateAIExplanation_first_success)

text \<open>
  The claim as stated fails: with no user signed in, the submission of a wrong answer
  returns at the first line of the handler; no explanation is requested and no mistake
  row is inserted.
\<close>

theorem incorrect_answer_without_user_ignored:
  "selectedAnswer (select_option ''3'' (marker_click demo_q30 initial_page))
      \<noteq> correctAnswer demo_q30
   \<and> page_modals (select_option ''3'' (marker_click demo_q30 initial_page)) = [demo_q30]
   \<and> handleAnswerSubmit (\<lambda>i. Resolved ''Because 2 + 2 = 4.'') None (Some ''lesson-1'')
        (select_option ''3'' (marker_click demo_q30 initial_page))
      = (select_option ''3'' (marker_click demo_q30 initial_page), [])"
  by (simp add: demo_defs select_option_def marker_click_def initial_page_def
      handleAnswerSubmit_def page_modals_def)

text \<open>
  Claim C10. In the video player, a wrong answer to the active question empties the
  answered list, assigns the embed URL to the mounted iframe (the video loads anew),
  closes the modal and sets playing. Every question of the lesson is eligible again: with
  a player set, the next interval check at a position whose floor is a question's
  timestamp activates the first question with that timestamp, answered before or not.
\<close>

theorem wrong_answer_resets_player:
  assumes "activeQuestion s = Some q"
  shows "answeredQuestions (fst (handleAnswer url False s)) = []
    \<and> iframe_src (fst (handleAnswer url False s)) =
        (case iframe_src s of None \<Rightarrow> None | Some old \<Rightarrow> Some url)
    \<and> activeQuestion (fst (handleAnswer url False s)) = None
    \<and> isPlaying (fst (handleAnswer url False s))
    \<and> (\<forall>q' position. player s \<and> find (\<lambda>x. timestamp x = real_of_int \<lfloor>position\<rfloor>) questions
          = Some q' \<longrightarrow>
        activeQuestion (interval_check questions position (fst (handleAnswer url False s)))
          = Some q')"
  using assms
  by (simp add: handleAnswer_def interval_check_def questionToShow_def)

theorem wrong_answer_resets_player_witness:
  "answeredQuestions (player_run demo_questions ''u''
      [IntervalCheck 30, Answer True, IntervalCheck 120] demo_player) = [''a'']
   \<and> fst (handleAnswer ''u'' False (player_run demo_questions ''u''
      [IntervalCheck 30, Answer True, IntervalCheck 120] demo_player))
      = demo_player\<lparr>iframe_src := Some ''u''\<rparr>
   \<and> activeQuestion (interval_check demo_questions 30.2
        (fst (handleAnswer ''u'' False (player_run demo_questions ''u''
          [IntervalCheck 30, Answer True, IntervalCheck 120] demo_player))))
      = Some demo_q30"
  using wrong_answer_resets_player [of "player_run demo_questions ''u''
      [IntervalCheck 30, Answer True, IntervalCheck 120] demo_player" demo_q120 "''u''"
      demo_questions]
  by (simp add: demo_defs player_run_def interval_check_def questionToShow_def
      handleAnswer_def)

end
